theory Spec2Isabelle
  imports Main "HOL-Library.Word"
begin

unbundle bit_operations_syntax

section \<open>The IAA compressor plugin (iaa\_compressor.cc)\<close>

text \<open>
  A shallow embedding of the class \<open>IAACompressor\<close> of \<^verbatim>\<open>src/iaa_compressor.cc\<close>:
  the length framing (\<open>EncodeSize\<close>, \<open>DecodeSize\<close>), the sizing of the output buffer,
  the per-thread caches of QPL job structures, and the two operations \<open>Compress\<close> and
  \<open>Uncompress\<close>. The QPL library and the memory allocators are outside the file; they
  enter the model as parameters (a record of entry points over an arbitrary backend state).
\<close>

subsection \<open>Machine integers and bytes\<close>

type_synonym u8 = "8 word"
type_synonym u32 = "32 word"      \<comment> \<open>\<open>uint32_t\<close>\<close>
type_synonym size_t = "64 word"   \<comment> \<open>\<open>size_t\<close> of the 64-bit targets QPL supports\<close>

subsection \<open>Length framing\<close>

text \<open>
  Modelled from the spec: \<open>PutVarint32\<close> and \<open>GetVarint32Ptr\<close> are declared in RocksDB's
  \<^verbatim>\<open>util/coding.h\<close>, which is not under \<^verbatim>\<open>src/\<close>. Section 4.1 of the spec gives the
  format: the standard base-128 little-endian varint, seven payload bits per byte, the
  continuation bit (128) set on all bytes but the last. \<open>EncodeVarint32\<close> yields the
  bytes of a 32-bit value, least significant group first.
\<close>

function EncodeVarint32 :: "u32 \<Rightarrow> u8 list" where
  "EncodeVarint32 v =
     (if v < 128 then [ucast v]
      else (ucast v OR 128) # EncodeVarint32 (drop_bit 7 v))"
  by pat_completeness auto
termination
proof (relation "measure unat")
  show "wf (measure unat)" by simp
next
  fix v :: u32
  assume "\<not> v < 128"
  then have "128 \<le> unat v" by (simp add: word_less_nat_alt not_less)
  then have "unat v div 128 < unat v" by simp
  then show "(drop_bit 7 v, v) \<in> measure unat"
    by (simp add: drop_bit_eq_div unat_div)
qed

declare EncodeVarint32.simps [simp del]

text \<open>
  Modelled from the spec: \<open>PutVarint32 dst v\<close> appends the varint of \<open>v\<close> to the string
  \<open>dst\<close>.
\<close>

definition PutVarint32 :: "u8 list \<Rightarrow> u32 \<Rightarrow> u8 list" where
  "PutVarint32 dst v = dst @ EncodeVarint32 v"

text \<open>
  Modelled from the spec: the parsing loop behind \<open>GetVarint32Ptr\<close>. The list is the
  range between the read pointer and the limit. Each byte contributes its low seven bits
  at the current shift; a byte without the continuation bit ends the value. The varint of
  a 32-bit value has at most five bytes, so the loop gives up after the shift 28. Running
  out of bytes is a failure (\<open>None\<close>, the null pointer). On success the result is
  the value and the rest of the range (the new read pointer).
\<close>

fun GetVarint32PtrLoop :: "nat \<Rightarrow> u32 \<Rightarrow> u8 list \<Rightarrow> (u32 \<times> u8 list) option" where
  "GetVarint32PtrLoop shift result p =
     (if shift \<le> 28 then
        (case p of
           [] \<Rightarrow> None
         | byte # p' \<Rightarrow>
             if byte AND 128 \<noteq> 0
             then GetVarint32PtrLoop (shift + 7)
                    (result OR push_bit shift (ucast (byte AND 127))) p'
             else Some (result OR push_bit shift (ucast byte), p'))
      else None)"

declare GetVarint32PtrLoop.simps [simp del]

text \<open>
  Modelled from the spec: \<open>GetVarint32Ptr p limit v\<close>. The argument is the bytes of
  \<open>[p, limit)\<close>; the result is the decoded value and the offset of the returned pointer
  from \<open>p\<close>, or \<open>None\<close> for the null pointer.
\<close>

definition GetVarint32Ptr :: "u8 list \<Rightarrow> (u32 \<times> nat) option" where
  "GetVarint32Ptr bytes =
     (case GetVarint32PtrLoop 0 0 bytes of
        None \<Rightarrow> None
      | Some (v, rest) \<Rightarrow> Some (v, length bytes - length rest))"

text \<open>
  \<open>IAACompressor::EncodeSize\<close> (lines 267-270). The \<open>size_t\<close> length is converted to
  the \<open>uint32_t\<close> parameter of \<open>PutVarint32\<close>; the result is \<open>output->size()\<close> after the
  append, converted to \<open>uint32_t\<close>. The updated string is returned with it.
\<close>

definition EncodeSize :: "size_t \<Rightarrow> u8 list \<Rightarrow> u32 \<times> u8 list" where
  "EncodeSize len output =
     (let output = PutVarint32 output (ucast len)
      in (of_nat (length output), output))"

text \<open>
  \<open>IAACompressor::DecodeSize\<close> (lines 272-282). \<open>input\<close> is the memory at the pointer
  \<open>*input\<close>, of which the first \<open>*input_length\<close> bytes are handed to \<open>GetVarint32Ptr\<close>.
  \<open>None\<close> is the result \<open>false\<close>; otherwise the advanced pointer, the reduced length
  and the decoded \<open>*output_length\<close> are returned.
\<close>

definition DecodeSize :: "u8 list \<Rightarrow> size_t \<Rightarrow> (u8 list \<times> size_t \<times> u32) option" where
  "DecodeSize input input_length =
     (case GetVarint32Ptr (take (unat input_length) input) of
        None \<Rightarrow> None
      | Some (output_length, consumed) \<Rightarrow>
          Some (drop consumed input, input_length - of_nat consumed, output_length))"

subsection \<open>Declarations of the QPL headers\<close>

text \<open>
  The header \<^verbatim>\<open>qpl/qpl.h\<close> is not under \<^verbatim>\<open>src/\<close>. Its enumerations are
  datatypes with the enumerators the plugin names. A status is the number that
  \<open>std::to_string\<close> prints; the two enumerators the plugin compares with,
  \<open>QPL_STS_OK\<close> and \<open>QPL_STS_QUEUES_ARE_BUSY_ERR\<close>, are parameters (fields of the record
  \<open>extern\<close> below). The flag word of a job is the set of the flags that are or-ed into it.
\<close>

datatype qpl_path_t = qpl_path_auto | qpl_path_hardware | qpl_path_software

datatype qpl_compression_levels = qpl_default_level | qpl_high_level

datatype qpl_operation = qpl_op_compress | qpl_op_decompress

datatype qpl_flag =
    QPL_FLAG_FIRST | QPL_FLAG_LAST | QPL_FLAG_OMIT_CHECKSUMS
  | QPL_FLAG_OMIT_VERIFY | QPL_FLAG_DYNAMIC_HUFFMAN

type_synonym qpl_status = nat

text \<open>
  The fields of \<open>qpl_job\<close> that the plugin writes or reads. A pointer into a buffer is
  modelled by the bytes it designates: \<open>next_in_ptr\<close> is the source, \<open>next_out_ptr\<close> the
  destination region, whose contents after a call are what the backend left there. A
  table or dictionary pointer is \<open>None\<close> when null.
\<close>

record qpl_job =
  next_in_ptr :: "u8 list"
  available_in :: u32
  next_out_ptr :: "u8 list"
  available_out :: u32
  total_out :: u32
  level :: qpl_compression_levels
  op :: qpl_operation
  flags :: "qpl_flag set"
  compression_huffman_table :: "nat option"
  decompression_huffman_table :: "nat option"
  dictionary :: "nat option"

subsection \<open>Declarations of the RocksDB headers\<close>

text \<open>
  \<open>rocksdb::Status\<close> with the two constructors the plugin uses, \<open>rocksdb::Slice\<close>
  (a pointer and a size), and the result of a memory allocator: a pointer (null, or an
  address with the memory behind it) or the exception \<open>std::bad_alloc\<close>.
\<close>

datatype Status = OK | Corruption string

record Slice =
  slice_data :: "u8 list"
  slice_size :: size_t

datatype char_ptr = nullptr | Ptr nat "u8 list"

datatype alloc_result = Returns char_ptr | Throws_bad_alloc

type_synonym 'e MemoryAllocator = "'e \<Rightarrow> size_t \<Rightarrow> alloc_result \<times> 'e"

record 'e UncompressionInfo =
  GetMemoryAllocator :: "'e MemoryAllocator"

text \<open>
  Modelled from the spec: \<open>Allocate size allocator\<close> of RocksDB's
  \<^verbatim>\<open>memory/memory_allocator.h\<close> is not under \<^verbatim>\<open>src/\<close>. By sections 4.4 and 6 of the
  spec it asks the supplied allocator for a buffer of exactly that size, and the
  allocator answers with a buffer, with null, or by raising. \<open>e\<close> is the state of the
  environment the allocator lives in.
\<close>

definition Allocate :: "'e \<Rightarrow> size_t \<Rightarrow> 'e MemoryAllocator \<Rightarrow> alloc_result \<times> 'e" where
  "Allocate e sz allocator = allocator e sz"

subsection \<open>The environment of the plugin\<close>

text \<open>
  Everything the plugin links against and cannot see: the two status enumerators,
  \<open>CompressionOptions::kDefaultCompressionLevel\<close>, the three QPL entry points, and
  \<open>std::make_unique<char[]>\<close> (\<open>False\<close> when it throws \<open>std::bad_alloc\<close>). The
  environment has a state \<open>'e\<close> of its own, which every call may read and change, so a
  backend may answer the same call differently each time. \<open>qpl_init_job\<close> returns the
  contents it leaves in the job buffer, \<open>qpl_execute_job\<close> the job as it leaves it.
\<close>

record 'e extern =
  QPL_STS_OK :: qpl_status
  QPL_STS_QUEUES_ARE_BUSY_ERR :: qpl_status
  kDefaultCompressionLevel :: int
  qpl_get_job_size :: "'e \<Rightarrow> qpl_path_t \<Rightarrow> (qpl_status \<times> u32) \<times> 'e"
  make_unique :: "'e \<Rightarrow> u32 \<Rightarrow> bool \<times> 'e"
  qpl_init_job :: "'e \<Rightarrow> qpl_path_t \<Rightarrow> (qpl_status \<times> qpl_job) \<times> 'e"
  qpl_execute_job :: "'e \<Rightarrow> qpl_job \<Rightarrow> (qpl_status \<times> qpl_job) \<times> 'e"

subsection \<open>The plugin's options and messages (lines 26-58)\<close>

datatype qpl_compression_mode = dynamic_mode | fixed_mode

record IAACompressorOptions =
  execution_path :: qpl_path_t
  compression_mode :: qpl_compression_mode
  verify :: bool
  level :: int
  parallel_threads :: u32

text \<open>\<open>std::to_string\<close> on an unsigned number: its decimal digits.\<close>

definition digit_char :: "nat \<Rightarrow> char" where
  "digit_char d = ''0123456789'' ! d"

function to_string :: "nat \<Rightarrow> string" where
  "to_string n =
     (if n < 10 then [digit_char n]
      else to_string (n div 10) @ [digit_char (n mod 10)])"
  by pat_completeness auto
termination
  by (relation "measure id") auto

declare to_string.simps [simp del]

definition MEMORY_ALLOCATION_ERROR :: string where
  "MEMORY_ALLOCATION_ERROR = ''memory allocation error''"

definition QPL_STATUS :: "qpl_status \<Rightarrow> string" where
  "QPL_STATUS status = ''QPL status '' @ to_string status"

subsection \<open>The state: job caches, environment, and a log of calls\<close>

text \<open>
  \<open>deflate_job_\<close> and \<open>inflate_job_\<close> (lines 263-264, 297-300) are thread-local
  vectors of three \<open>unique_ptr<char[]>\<close>, indexed by the execution path. They are
  functions from the thread and the path to the buffer, \<open>None\<close> for the null pointer.
  A buffer holds a \<open>qpl_job\<close>; the flag \<open>initialized\<close> is a ghost field that records
  whether \<open>qpl_init_job\<close> has returned \<open>QPL_STS_OK\<close> for this buffer.

  The state also carries the state of the environment and, as instrumentation, the list
  of the calls made to the environment so far, the latest last. No path of the source
  deallocates; the constructor \<open>Call_Deallocate\<close> is there so that this can be stated.
\<close>

type_synonym tid = nat

record job_buffer =
  job :: qpl_job
  initialized :: bool

datatype call =
    Call_qpl_get_job_size qpl_path_t
  | Call_make_unique u32
  | Call_qpl_init_job qpl_path_t
  | Call_qpl_execute_job
  | Call_Allocate size_t
  | Call_Deallocate nat

record 'e world =
  deflate_job_cache :: "tid \<Rightarrow> qpl_path_t \<Rightarrow> job_buffer option"
  inflate_job_cache :: "tid \<Rightarrow> qpl_path_t \<Rightarrow> job_buffer option"
  env :: 'e
  calls :: "call list"

subsection \<open>Helpers of \<open>IAACompressor\<close>\<close>

text \<open>\<open>IAACompressor::GetQplLevel\<close> (lines 286-292).\<close>

definition GetQplLevel :: "'e extern \<Rightarrow> int \<Rightarrow> qpl_compression_levels" where
  "GetQplLevel x lvl =
     (if lvl = 0 \<or> lvl = kDefaultCompressionLevel x then qpl_default_level
      else qpl_high_level)"

text \<open>
  \<open>std::string::resize\<close>: the string is cut, or filled up with zero bytes. \<open>store\<close>
  is the effect of the backend on a destination region: what it wrote replaces the
  beginning of the region, and the region keeps its size.
\<close>

definition resize :: "nat \<Rightarrow> u8 list \<Rightarrow> u8 list" where
  "resize n s = take n s @ replicate (n - length s) 0"

definition store :: "u8 list \<Rightarrow> u8 list \<Rightarrow> u8 list" where
  "store region written = take (length region) (written @ drop (length written) region)"

subsection \<open>\<open>IAACompressor::Compress\<close> (lines 105-184)\<close>

text \<open>
  Lines 113-121: the worst-case size of the output, in \<open>size_t\<close> arithmetic, clamped to
  the largest \<open>uint32_t\<close>.
\<close>

definition Compress_output_length :: "u32 \<Rightarrow> size_t \<Rightarrow> size_t" where
  "Compress_output_length output_header_length input_length =
     (let output_length =
            ucast output_header_length + input_length +
            (input_length div 65535 + (if input_length mod 65535 \<noteq> 0 then 1 else 0)) * 5
      in if output_length > 0xFFFFFFFF then 0xFFFFFFFF else output_length)"

text \<open>
  Lines 108-122: the length prefix is appended to the output string, which is then
  resized to the computed length. The result is \<open>output_header_length\<close>,
  \<open>output_length\<close> and the string.
\<close>

definition Compress_prepare :: "Slice \<Rightarrow> u8 list \<Rightarrow> u32 \<times> size_t \<times> u8 list" where
  "Compress_prepare input output =
     (case EncodeSize (slice_size input) output of (output_header_length, output) \<Rightarrow>
        let input_length = slice_size input;
            output_length = Compress_output_length output_header_length input_length
        in (output_header_length, output_length, resize (unat output_length) output))"

text \<open>
  Lines 128-147: the job of the calling thread for the execution path. With a null
  entry the size is asked for, the buffer allocated and stored in the entry, and the job
  initialised; each failure returns a \<open>Corruption\<close> (\<open>Inl\<close>). The entry is assigned
  before \<open>qpl_init_job\<close> runs and stays assigned when that fails. With a non-null
  entry the job in it is used as it is.
\<close>

definition get_deflate_job ::
  "'e extern \<Rightarrow> tid \<Rightarrow> qpl_path_t \<Rightarrow> 'e world \<Rightarrow> (Status + qpl_job) \<times> 'e world" where
  "get_deflate_job x t path w =
     (case deflate_job_cache w t path of
        None \<Rightarrow>
          (case qpl_get_job_size x (env w) path of ((status, sz), e1) \<Rightarrow>
             let w1 = w\<lparr>env := e1, calls := calls w @ [Call_qpl_get_job_size path]\<rparr> in
             if status \<noteq> QPL_STS_OK x then (Inl (Corruption (QPL_STATUS status)), w1)
             else
               (case make_unique x e1 sz of (allocated, e2) \<Rightarrow>
                  let w2 = w1\<lparr>env := e2, calls := calls w1 @ [Call_make_unique sz]\<rparr> in
                  if \<not> allocated then (Inl (Corruption MEMORY_ALLOCATION_ERROR), w2)
                  else
                    (case qpl_init_job x e2 path of ((status, j), e3) \<Rightarrow>
                       let w3 = w2\<lparr>deflate_job_cache := (deflate_job_cache w2)
                                   (t := (deflate_job_cache w2 t)
                                      (path \<mapsto>
                                         \<lparr>job = j, initialized = (status = QPL_STS_OK x)\<rparr>)),
                                 env := e3,
                                 calls := calls w2 @ [Call_qpl_init_job path]\<rparr> in
                       if status \<noteq> QPL_STS_OK x
                       then (Inl (Corruption (QPL_STATUS status)), w3)
                       else (Inr j, w3))))
      | Some b \<Rightarrow> (Inr (job b), w))"

text \<open>
  Lines 171-174 and 242-245: \<open>status\<close> starts as \<open>QPL_STS_QUEUES_ARE_BUSY_ERR\<close> and
  the job is executed again as long as it is that. The loop has no bound; \<open>None\<close> is
  the run that never leaves it.
\<close>

partial_function (option) execute_while_busy ::
  "'e extern \<Rightarrow> qpl_status \<Rightarrow> qpl_job \<Rightarrow> 'e \<Rightarrow> call list
     \<Rightarrow> (qpl_status \<times> qpl_job \<times> 'e \<times> call list) option" where
  "execute_while_busy x status j e cs =
     (if status = QPL_STS_QUEUES_ARE_BUSY_ERR x
      then (case qpl_execute_job x e j of ((status', j'), e') \<Rightarrow>
              execute_while_busy x status' j' e' (cs @ [Call_qpl_execute_job]))
      else Some (status, j, e, cs))"

declare execute_while_busy.simps [code]

text \<open>Lines 149-169: the fields of the job for a compression.\<close>

definition Compress_set_job ::
  "'e extern \<Rightarrow> IAACompressorOptions \<Rightarrow> Slice \<Rightarrow> u32 \<Rightarrow> size_t \<Rightarrow> u8 list \<Rightarrow> qpl_job
     \<Rightarrow> qpl_job" where
  "Compress_set_job x options input output_header_length output_length output j =
     (let j = j\<lparr>next_in_ptr := slice_data input,
                available_in := ucast (slice_size input),
                next_out_ptr := drop (unat output_header_length) output,
                available_out := ucast (output_length - ucast output_header_length),
                qpl_job.level := GetQplLevel x (IAACompressorOptions.level options),
                op := qpl_op_compress,
                flags := {QPL_FLAG_FIRST, QPL_FLAG_LAST, QPL_FLAG_OMIT_CHECKSUMS}\<rparr>;
          j = (if \<not> verify options then j\<lparr>flags := flags j \<union> {QPL_FLAG_OMIT_VERIFY}\<rparr>
               else j);
          j = j\<lparr>compression_huffman_table := None, dictionary := None\<rparr>
      in if compression_mode options = dynamic_mode
         then j\<lparr>flags := flags j \<union> {QPL_FLAG_DYNAMIC_HUFFMAN}\<rparr> else j)"

text \<open>
  The job is written through a pointer into the cached buffer; \<open>put_deflate_job\<close>
  stores the job as the call leaves it into the entry it came from.
\<close>

definition put_deflate_job :: "tid \<Rightarrow> qpl_path_t \<Rightarrow> qpl_job \<Rightarrow> 'e world \<Rightarrow> 'e world" where
  "put_deflate_job t p j w =
     w\<lparr>deflate_job_cache := (deflate_job_cache w)
          (t := (deflate_job_cache w t)
             (p := map_option (\<lambda>b. b\<lparr>job := j\<rparr>) (deflate_job_cache w t p)))\<rparr>"

text \<open>
  \<open>Compress\<close> for the thread \<open>t\<close>. The result is the status, the output string and
  the new state; \<open>None\<close> when the call never returns. The destination of the job starts
  \<open>output_header_length\<close> bytes into the resized string. After a successful execution
  the string is resized to \<open>output_header_length + job->total_out\<close>, a sum of two
  \<open>uint32_t\<close>.
\<close>

definition Compress ::
  "'e extern \<Rightarrow> IAACompressorOptions \<Rightarrow> tid \<Rightarrow> Slice \<Rightarrow> u8 list \<Rightarrow> 'e world
     \<Rightarrow> (Status \<times> u8 list \<times> 'e world) option" where
  "Compress x options t input output w =
     (case Compress_prepare input output of (output_header_length, output_length, output) \<Rightarrow>
      case get_deflate_job x t (execution_path options) w of
        (Inl s, w) \<Rightarrow> Some (s, output, w)
      | (Inr j, w) \<Rightarrow>
          let j = Compress_set_job x options input output_header_length output_length output j
          in
          (case execute_while_busy x (QPL_STS_QUEUES_ARE_BUSY_ERR x) j (env w) (calls w) of
             None \<Rightarrow> None
           | Some (status, j, e, cs) \<Rightarrow>
               let w = put_deflate_job t (execution_path options) j (w\<lparr>env := e, calls := cs\<rparr>);
                   output = take (unat output_header_length) output
                            @ store (drop (unat output_header_length) output) (next_out_ptr j)
               in if status \<noteq> QPL_STS_OK x
                  then Some (Corruption (QPL_STATUS status), output, w)
                  else Some (OK, resize (unat (output_header_length + total_out j)) output, w)))"

subsection \<open>\<open>IAACompressor::Uncompress\<close> (lines 186-257)\<close>

text \<open>Lines 207-227: as lines 128-147, on \<open>inflate_job_\<close>.\<close>

definition get_inflate_job ::
  "'e extern \<Rightarrow> tid \<Rightarrow> qpl_path_t \<Rightarrow> 'e world \<Rightarrow> (Status + qpl_job) \<times> 'e world" where
  "get_inflate_job x t path w =
     (case inflate_job_cache w t path of
        None \<Rightarrow>
          (case qpl_get_job_size x (env w) path of ((status, sz), e1) \<Rightarrow>
             let w1 = w\<lparr>env := e1, calls := calls w @ [Call_qpl_get_job_size path]\<rparr> in
             if status \<noteq> QPL_STS_OK x then (Inl (Corruption (QPL_STATUS status)), w1)
             else
               (case make_unique x e1 sz of (allocated, e2) \<Rightarrow>
                  let w2 = w1\<lparr>env := e2, calls := calls w1 @ [Call_make_unique sz]\<rparr> in
                  if \<not> allocated then (Inl (Corruption MEMORY_ALLOCATION_ERROR), w2)
                  else
                    (case qpl_init_job x e2 path of ((status, j), e3) \<Rightarrow>
                       let w3 = w2\<lparr>inflate_job_cache := (inflate_job_cache w2)
                                   (t := (inflate_job_cache w2 t)
                                      (path \<mapsto>
                                         \<lparr>job = j, initialized = (status = QPL_STS_OK x)\<rparr>)),
                                 env := e3,
                                 calls := calls w2 @ [Call_qpl_init_job path]\<rparr> in
                       if status \<noteq> QPL_STS_OK x
                       then (Inl (Corruption (QPL_STATUS status)), w3)
                       else (Inr j, w3))))
      | Some b \<Rightarrow> (Inr (job b), w))"

text \<open>Lines 229-240: the fields of the job for a decompression.\<close>

definition Uncompress_set_job :: "u8 list \<Rightarrow> size_t \<Rightarrow> u8 list \<Rightarrow> u32 \<Rightarrow> qpl_job \<Rightarrow> qpl_job" where
  "Uncompress_set_job input input_length destination encoded_output_length j =
     (let j = j\<lparr>next_in_ptr := input,
                available_in := ucast input_length,
                next_out_ptr := destination,
                available_out := encoded_output_length,
                op := qpl_op_decompress,
                decompression_huffman_table := None,
                flags := {QPL_FLAG_FIRST, QPL_FLAG_LAST}\<rparr>
      in j\<lparr>flags := flags j \<union> {QPL_FLAG_OMIT_CHECKSUMS}\<rparr>)"

definition put_inflate_job :: "tid \<Rightarrow> qpl_path_t \<Rightarrow> qpl_job \<Rightarrow> 'e world \<Rightarrow> 'e world" where
  "put_inflate_job t p j w =
     w\<lparr>inflate_job_cache := (inflate_job_cache w)
          (t := (inflate_job_cache w t)
             (p := map_option (\<lambda>b. b\<lparr>job := j\<rparr>) (inflate_job_cache w t p)))\<rparr>"

text \<open>
  \<open>Uncompress\<close> for the thread \<open>t\<close>. \<open>input\<close> is the memory at the input pointer,
  \<open>output\<close> and \<open>output_length\<close> are the values of \<open>*output\<close> and
  \<open>*output_length\<close> at the call; the result holds their values at the return.
  \<open>*output\<close> is assigned when the allocator returns, also when it returns null, and
  not when it throws. \<open>*output_length\<close> is assigned on success only.
\<close>

definition Uncompress ::
  "'e extern \<Rightarrow> IAACompressorOptions \<Rightarrow> tid \<Rightarrow> 'e UncompressionInfo \<Rightarrow> u8 list \<Rightarrow> size_t
     \<Rightarrow> char_ptr \<Rightarrow> size_t \<Rightarrow> 'e world
     \<Rightarrow> (Status \<times> char_ptr \<times> size_t \<times> 'e world) option" where
  "Uncompress x options t info input input_length output output_length w =
     (case DecodeSize input input_length of
        None \<Rightarrow> Some (Corruption ''size decoding error'', output, output_length, w)
      | Some (input, input_length, encoded_output_length) \<Rightarrow>
          (case Allocate (env w) (ucast encoded_output_length) (GetMemoryAllocator info) of
             (r, e) \<Rightarrow>
           let w = w\<lparr>env := e,
                     calls := calls w @ [Call_Allocate (ucast encoded_output_length)]\<rparr> in
           case r of
             Throws_bad_alloc \<Rightarrow>
               Some (Corruption MEMORY_ALLOCATION_ERROR, output, output_length, w)
           | Returns nullptr \<Rightarrow>
               Some (Corruption MEMORY_ALLOCATION_ERROR, nullptr, output_length, w)
           | Returns (Ptr a destination) \<Rightarrow>
               (case get_inflate_job x t (execution_path options) w of
                  (Inl s, w) \<Rightarrow> Some (s, Ptr a destination, output_length, w)
                | (Inr j, w) \<Rightarrow>
                    let j = Uncompress_set_job input input_length destination
                              encoded_output_length j
                    in
                    (case execute_while_busy x (QPL_STS_QUEUES_ARE_BUSY_ERR x) j (env w)
                            (calls w) of
                       None \<Rightarrow> None
                     | Some (status, j, e, cs) \<Rightarrow>
                         let w = put_inflate_job t (execution_path options) j
                                   (w\<lparr>env := e, calls := cs\<rparr>);
                             output = Ptr a (store destination (next_out_ptr j))
                         in if status \<noteq> QPL_STS_OK x
                            then Some (Corruption (QPL_STATUS status), output, output_length, w)
                            else if total_out j \<noteq> encoded_output_length
                            then Some (Corruption ''size mismatch'', output, output_length, w)
                            else Some (OK, output, ucast (total_out j), w)))))"

subsection \<open>The answers of the backend to repeated execution\<close>

text \<open>
  \<open>execute_n x n j e\<close> is the job and the environment after \<open>n\<close> consecutive calls of
  \<open>qpl_execute_job\<close>, each on the job the previous one left; \<open>execute_status x n j e\<close>
  is the status that call number \<open>n\<close> (counted from 0) returns. \<open>first_non_busy x k j e\<close>
  says that the calls \<open>0, \<dots>, k - 1\<close> answer busy and call \<open>k\<close> does not.
\<close>

fun execute_n :: "'e extern \<Rightarrow> nat \<Rightarrow> qpl_job \<Rightarrow> 'e \<Rightarrow> qpl_job \<times> 'e" where
  "execute_n x 0 j e = (j, e)"
| "execute_n x (Suc n) j e =
     (case qpl_execute_job x e j of ((status, j'), e') \<Rightarrow> execute_n x n j' e')"

definition execute_status :: "'e extern \<Rightarrow> nat \<Rightarrow> qpl_job \<Rightarrow> 'e \<Rightarrow> qpl_status" where
  "execute_status x n j e =
     (case execute_n x n j e of (j', e') \<Rightarrow> fst (fst (qpl_execute_job x e' j')))"

definition first_non_busy :: "'e extern \<Rightarrow> nat \<Rightarrow> qpl_job \<Rightarrow> 'e \<Rightarrow> bool" where
  "first_non_busy x k j e \<longleftrightarrow>
     (\<forall>i<k. execute_status x i j e = QPL_STS_QUEUES_ARE_BUSY_ERR x) \<and>
     execute_status x k j e \<noteq> QPL_STS_QUEUES_ARE_BUSY_ERR x"

subsection \<open>Rounding up\<close>

text \<open>\<open>ceil_div n d\<close> is \<open>n / d\<close> rounded up, the \<open>ceil(n / d)\<close> of the specification.\<close>

definition ceil_div :: "nat \<Rightarrow> nat \<Rightarrow> nat" where
  "ceil_div n d = (n + (d - 1)) div d"

subsection \<open>Test doubles\<close>

text \<open>
  Concrete environments and inputs on which the theorems below are exercised. The block
  \<open>abc\<close> is what \<open>GenerateBlock(3)\<close> of the test file yields; \<open>big\<close> is a slice whose
  size is \<open>2^32 + 300\<close> (only the size of the input enters the framing); the options are the
  default member initialisers of \<open>IAACompressorOptions\<close> (lines 53-57); in the initial
  state every entry of both caches is null (lines 297-300).

  \<open>copy_double\<close> is a backend whose state counts the calls of \<open>qpl_execute_job\<close>. It
  answers \<open>qpl_get_job_size\<close> and \<open>qpl_init_job\<close> with the given statuses, and
  execution number \<open>n\<close> with \<open>exec_status n\<close>; a successful execution copies the
  available input to the destination. In it \<open>QPL_STS_OK\<close> is 0 and
  \<open>QPL_STS_QUEUES_ARE_BUSY_ERR\<close> is 5.

  \<open>NullMemoryAllocator\<close> and \<open>ExceptionMemoryAllocator\<close> are the allocators of the
  test file (lines 122-140); \<open>BufferMemoryAllocator\<close> returns a zeroed buffer at the
  address 4096.
\<close>

definition abc :: Slice where
  "abc = \<lparr>slice_data = [97, 98, 99], slice_size = 3\<rparr>"

definition big :: Slice where
  "big = \<lparr>slice_data = [], slice_size = 4294967596\<rparr>"

definition default_options :: IAACompressorOptions where
  "default_options =
     \<lparr>execution_path = qpl_path_auto, compression_mode = dynamic_mode, verify = False,
      level = 0, parallel_threads = 1\<rparr>"

definition initial_world :: "'e \<Rightarrow> 'e world" where
  "initial_world e =
     \<lparr>deflate_job_cache = (\<lambda>t p. None), inflate_job_cache = (\<lambda>t p. None),
      env = e, calls = []\<rparr>"

definition blank_job :: qpl_job where
  "blank_job =
     \<lparr>next_in_ptr = [], available_in = 0, next_out_ptr = [], available_out = 0, total_out = 0,
      level = qpl_default_level, op = qpl_op_compress, flags = {},
      compression_huffman_table = None, decompression_huffman_table = None,
      dictionary = None\<rparr>"

definition copy_double ::
  "qpl_status \<Rightarrow> qpl_status \<Rightarrow> (nat \<Rightarrow> qpl_status) \<Rightarrow> nat extern" where
  "copy_double size_status init_status exec_status =
     \<lparr>QPL_STS_OK = 0, QPL_STS_QUEUES_ARE_BUSY_ERR = 5, kDefaultCompressionLevel = 32767,
      qpl_get_job_size = (\<lambda>e p. ((size_status, 4096), e)),
      make_unique = (\<lambda>e sz. (True, e)),
      qpl_init_job = (\<lambda>e p. ((init_status, blank_job), e)),
      qpl_execute_job = (\<lambda>e j.
         ((exec_status e,
           if exec_status e = 0
           then j\<lparr>next_out_ptr := take (unat (available_in j)) (next_in_ptr j),
                  total_out := available_in j\<rparr>
           else j), Suc e))\<rparr>"

definition busy_twice_then :: "qpl_status \<Rightarrow> nat \<Rightarrow> qpl_status" where
  "busy_twice_then status n = (if n < 2 then 5 else status)"

definition NullMemoryAllocator :: "'e MemoryAllocator" where
  "NullMemoryAllocator e sz = (Returns nullptr, e)"

definition ExceptionMemoryAllocator :: "'e MemoryAllocator" where
  "ExceptionMemoryAllocator e sz = (Throws_bad_alloc, e)"

definition BufferMemoryAllocator :: "'e MemoryAllocator" where
  "BufferMemoryAllocator e sz = (Returns (Ptr 4096 (replicate (unat sz) 0)), e)"

text \<open>
  \<open>framed_abc\<close> is the block \<open>abc\<close> as \<open>Compress\<close> frames it over \<open>copy_double\<close>: the
  varint of 3 and the three bytes. \<open>garbage\<close> is the value of the uninitialised
  \<open>uncompressed\<close> pointer of the tests before a call.
\<close>

definition framed_abc :: "u8 list" where
  "framed_abc = [3, 97, 98, 99]"

definition garbage :: char_ptr where
  "garbage = Ptr 57005 []"

definition default_info :: "'e UncompressionInfo" where
  "default_info = \<lparr>GetMemoryAllocator = BufferMemoryAllocator\<rparr>"

definition null_info :: "'e UncompressionInfo" where
  "null_info = \<lparr>GetMemoryAllocator = NullMemoryAllocator\<rparr>"

definition exception_info :: "'e UncompressionInfo" where
  "exception_info = \<lparr>GetMemoryAllocator = ExceptionMemoryAllocator\<rparr>"

text \<open>
  \<open>capacity_probe\<close> is a backend that shows what \<open>Compress\<close> hands over: its
  \<open>qpl_execute_job\<close> answers with \<open>available_out\<close> of the job as its status.
  \<open>failing_sizing\<close> is a backend whose \<open>qpl_get_job_size\<close> answers with the status 50.
\<close>

definition capacity_probe :: "nat extern" where
  "capacity_probe =
     (copy_double 0 0 (\<lambda>n. 0))
       \<lparr>qpl_execute_job := (\<lambda>e j. ((unat (available_out j), j), Suc e))\<rparr>"


text \<open>
  The invariant of the two caches that the first-use branch aims at: every entry that is
  not null holds a job that \<open>qpl_init_job\<close> has initialised with success.
\<close>

definition every_cached_job_initialized :: "'e world \<Rightarrow> bool" where
  "every_cached_job_initialized w \<longleftrightarrow>
     (\<forall>t p b. (deflate_job_cache w t p = Some b \<longrightarrow> initialized b) \<and>
              (inflate_job_cache w t p = Some b \<longrightarrow> initialized b))"

section \<open>Properties of the length framing\<close>

lemma bit_128_word: "bit (128 :: 'a::len word) n \<longleftrightarrow> n = 7 \<and> 7 < LENGTH('a)"
  using bit_exp_iff [where ?'a = "'a word", of 7 n]
  by (auto dest: bit_imp_le_length simp: possible_bit_word)

lemma bit_128_nat: "bit (128 :: nat) n \<longleftrightarrow> n = 7"
  using bit_exp_iff [where ?'a = nat, of 7 n] by simp

lemma bit_128_int: "bit (128 :: int) n \<longleftrightarrow> n = 7"
  using bit_exp_iff [where ?'a = int, of 7 n] by simp

lemmas bit_128 = bit_128_word bit_128_nat bit_128_int

lemma continuation_bit_set: "((ucast (v::u32) :: u8) OR 128) AND 128 \<noteq> 0"
proof -
  have "bit (((ucast v :: u8) OR 128) AND 128) 7"
    by (simp add: bit_simps bit_128)
  then show ?thesis by auto
qed

lemma low_seven_bits:
  "ucast (((ucast (v::u32) :: u8) OR 128) AND 127) = (v AND 127 :: u32)"
proof -
  have a: "(127 :: u8) = mask 7" by (simp add: mask_eq_exp_minus_1)
  have b: "(127 :: u32) = mask 7" by (simp add: mask_eq_exp_minus_1)
  show ?thesis unfolding a b
    by (rule bit_word_eqI) (auto simp: bit_simps bit_128)
qed

lemma below_128_mask: "(v::u32) < 128 \<Longrightarrow> v = v AND mask 7"
proof -
  assume "v < 128"
  then have "v < 2 ^ 7" by simp
  then show ?thesis by (simp add: less_mask_eq)
qed

lemma last_byte_no_continuation: "(v::u32) < 128 \<Longrightarrow> (ucast v :: u8) AND 128 = 0"
proof -
  assume "v < 128"
  then have e: "v = v AND mask 7" by (rule below_128_mask)
  show ?thesis
    by (subst e, rule bit_word_eqI) (auto simp: bit_simps bit_128)
qed

lemma last_byte_value: "(v::u32) < 128 \<Longrightarrow> (ucast (ucast v :: u8) :: u32) = v"
proof -
  assume "v < 128"
  then have e: "v = v AND mask 7" by (rule below_128_mask)
  show ?thesis
    by (subst (2) e, subst e, rule bit_word_eqI) (auto simp: bit_simps)
qed

lemma groups_recombine:
  "push_bit s (v AND 127) OR push_bit (s + 7) (drop_bit 7 v) = push_bit s (v :: u32)"
proof -
  have b: "(127 :: u32) = mask 7" by (simp add: mask_eq_exp_minus_1)
  have c: "7 + (n - (s + 7)) = n - s" if "\<not> n - s < 7" for n
    using that by arith
  show ?thesis unfolding b
    apply (rule bit_word_eqI)
    apply (auto simp: bit_simps)
    subgoal for n by (cases "n - s < 7") (simp_all add: c)
    done
qed

text \<open>
  The parsing loop inverts the encoder at every group boundary: started at the shift
  \<open>7 * k\<close> on the encoding of a value that fits the remaining \<open>5 - k\<close> groups, it adds
  the value at that shift and stops right behind the encoding.
\<close>

lemma GetVarint32PtrLoop_EncodeVarint32:
  "k \<le> 4 \<Longrightarrow> unat v < 2 ^ (7 * (5 - k)) \<Longrightarrow>
   GetVarint32PtrLoop (7 * k) acc (EncodeVarint32 v @ rest)
     = Some (acc OR push_bit (7 * k) v, rest)"
proof (induction v arbitrary: k acc rule: EncodeVarint32.induct)
  case (1 v)
  show ?case
  proof (cases "v < 128")
    case True
    then show ?thesis using "1.prems"
      by (subst EncodeVarint32.simps, subst GetVarint32PtrLoop.simps)
         (simp add: last_byte_no_continuation last_byte_value)
  next
    case False
    then have ge: "128 \<le> unat v" by (simp add: word_less_nat_alt not_less)
    have k3: "k \<le> 3"
    proof (rule ccontr)
      assume "\<not> k \<le> 3"
      with "1.prems" have "k = 4" by simp
      with "1.prems" ge show False by simp
    qed
    have "unat (drop_bit 7 v) = unat v div 2 ^ 7"
      by (simp add: drop_bit_eq_div unat_div)
    also have "\<dots> < 2 ^ (7 * (5 - Suc k))"
    proof -
      have "7 * (5 - k) = 7 + 7 * (5 - Suc k)" using k3 by simp
      then have "unat v < 2 ^ 7 * 2 ^ (7 * (5 - Suc k))"
        using "1.prems"(2) by (simp add: power_add)
      then show ?thesis by (simp add: less_mult_imp_div_less mult.commute)
    qed
    finally have small: "unat (drop_bit 7 v) < 2 ^ (7 * (5 - Suc k))" .
    have IH: "GetVarint32PtrLoop (7 * Suc k) acc' (EncodeVarint32 (drop_bit 7 v) @ rest)
              = Some (acc' OR push_bit (7 * Suc k) (drop_bit 7 v), rest)" for acc'
      using "1.IH" [OF False, of "Suc k" acc'] k3 small by simp
    have s7: "7 * k + 7 = 7 * Suc k" by simp
    show ?thesis using False k3
      apply (subst EncodeVarint32.simps)
      apply (subst GetVarint32PtrLoop.simps)
      apply (simp only: s7 IH continuation_bit_set low_seven_bits if_True if_False
          list.case append_Cons not_False_eq_True)
      apply (simp add: or.assoc)
      using groups_recombine [of "7 * k" v] apply (simp add: add.commute)
      done
  qed
qed

lemma GetVarint32Ptr_EncodeVarint32:
  "GetVarint32Ptr (EncodeVarint32 v @ rest) = Some (v, length (EncodeVarint32 v))"
proof -
  have "unat v < 2 ^ 32" using unsigned_less [of v] by simp
  then have "unat v < 2 ^ (7 * (5 - 0))" by simp
  from GetVarint32PtrLoop_EncodeVarint32 [of 0 v 0 rest, OF _ this]
  show ?thesis by (simp add: GetVarint32Ptr_def)
qed

lemma EncodeVarint32_length: "1 \<le> length (EncodeVarint32 v) \<and> length (EncodeVarint32 v) \<le> 5"
proof -
  have bound: "unat v < 2 ^ (7 * k) \<Longrightarrow> 1 \<le> k \<Longrightarrow>
        1 \<le> length (EncodeVarint32 v) \<and> length (EncodeVarint32 v) \<le> k" for k
  proof (induction v arbitrary: k rule: EncodeVarint32.induct)
    case (1 v)
    show ?case
    proof (cases "v < 128")
      case True
      then show ?thesis using "1.prems" by (subst (1 2) EncodeVarint32.simps) simp
    next
      case False
      then have ge: "128 \<le> unat v" by (simp add: word_less_nat_alt not_less)
      have "k \<noteq> 1" using ge "1.prems" by auto
      then obtain j where j: "k = Suc j" "1 \<le> j" using "1.prems" by (cases k) auto
      have "unat (drop_bit 7 v) = unat v div 2 ^ 7"
        by (simp add: drop_bit_eq_div unat_div)
      also have "\<dots> < 2 ^ (7 * j)"
      proof -
        have "unat v < 2 ^ 7 * 2 ^ (7 * j)" using "1.prems"(1) j by (simp add: power_add)
        then show ?thesis by (simp add: less_mult_imp_div_less mult.commute)
      qed
      finally have "unat (drop_bit 7 v) < 2 ^ (7 * j)" .
      from "1.IH" [OF False this j(2)] show ?thesis
        using False j by (subst (1 2) EncodeVarint32.simps) simp
    qed
  qed
  have "unat v < 2 ^ 32" using unsigned_less [of v] by simp
  then have "unat v < 2 ^ (7 * 5)" by simp
  then show ?thesis by (rule bound) simp
qed

subsection \<open>Round trip of the length prefix\<close>



text \<open>
  Claim C1. For every length \<open>n\<close> with \<open>0 \<le> n \<le> 2^32 - 1\<close>, decoding what \<open>EncodeSize\<close>
  wrote returns \<open>n\<close> and consumes exactly the bytes of the encoding: \<open>EncodeSize\<close> on an
  empty string yields the varint \<open>enc\<close> and its length \<open>h\<close>, and \<open>DecodeSize\<close> on \<open>enc\<close>
  followed by any payload, with any \<open>input_length\<close> that covers \<open>enc\<close>, succeeds with the
  value \<open>n\<close>, the pointer moved behind \<open>enc\<close> and the length reduced by \<open>length enc\<close>.
\<close>

theorem C1_size_roundtrip:
  assumes "unat n < 2 ^ 32"
    and "EncodeSize n [] = (h, enc)"
    and "length enc \<le> unat input_length"
  shows "DecodeSize (enc @ payload) input_length
           = Some (payload, input_length - of_nat (length enc), ucast n)
         \<and> ucast (ucast n :: u32) = n
         \<and> unat h = length enc"
proof -
  have enc: "enc = EncodeVarint32 (ucast n)" and h: "h = of_nat (length enc)"
    using assms(2) by (auto simp: EncodeSize_def PutVarint32_def Let_def)
  have len: "length enc \<le> 5" using EncodeVarint32_length [of "ucast n"] enc by simp
  have "take (unat input_length) (enc @ payload) = enc @ take (unat input_length - length enc) payload"
    using assms(3) by simp
  then have "GetVarint32Ptr (take (unat input_length) (enc @ payload)) = Some (ucast n, length enc)"
    using GetVarint32Ptr_EncodeVarint32 [of "ucast n"] enc by simp
  then have d: "DecodeSize (enc @ payload) input_length
           = Some (payload, input_length - of_nat (length enc), ucast n)"
    by (simp add: DecodeSize_def)
  have "n < 2 ^ 32" using assms(1) by (simp add: word_less_nat_alt)
  have "unat (ucast (ucast n :: u32) :: size_t) = unat n"
    using assms(1) by (simp add: unsigned_ucast_eq unsigned_take_bit_eq take_bit_nat_eq_self)
  then have u: "ucast (ucast n :: u32) = n"
    by (simp add: word_unat_eq_iff)
  have "unat h = length enc" using len h by (simp add: unat_of_nat)
  with d u show ?thesis by simp
qed

theorem C1_size_roundtrip_witness:
  "unat (300 :: size_t) < 2 ^ 32 \<and> EncodeSize 300 [] = (2, [172, 2])
   \<and> DecodeSize ([172, 2] @ [7, 7]) 4 = Some ([7, 7], 2, 300)"
  using C1_size_roundtrip [of 300 2 "[172, 2]" 4 "[7, 7]"]
  by (simp add: EncodeSize_def PutVarint32_def EncodeVarint32.simps)

section \<open>The retry loop\<close>

lemma execute_status_Suc:
  "qpl_execute_job x e j = ((s, j'), e') \<Longrightarrow>
   execute_status x (Suc n) j e = execute_status x n j' e'"
  by (simp add: execute_status_def)

lemma execute_status_0:
  "qpl_execute_job x e j = ((s, j'), e') \<Longrightarrow> execute_status x 0 j e = s"
  by (simp add: execute_status_def)

lemma execute_while_busy_returns:
  "(\<forall>i<k. execute_status x i j e = QPL_STS_QUEUES_ARE_BUSY_ERR x) \<Longrightarrow>
   execute_status x k j e \<noteq> QPL_STS_QUEUES_ARE_BUSY_ERR x \<Longrightarrow>
   execute_while_busy x (QPL_STS_QUEUES_ARE_BUSY_ERR x) j e cs =
     Some (execute_status x k j e, fst (execute_n x (Suc k) j e), snd (execute_n x (Suc k) j e),
           cs @ replicate (Suc k) Call_qpl_execute_job)"
proof (induction k arbitrary: j e cs)
  case 0
  obtain s j' e' where ex: "qpl_execute_job x e j = ((s, j'), e')"
    by (metis prod.exhaust)
  with 0 have "s \<noteq> QPL_STS_QUEUES_ARE_BUSY_ERR x" by (simp add: execute_status_0)
  then show ?case using ex
    by (subst execute_while_busy.simps, simp, subst execute_while_busy.simps)
       (simp add: execute_status_0)
next
  case (Suc k)
  obtain s j' e' where ex: "qpl_execute_job x e j = ((s, j'), e')"
    by (metis prod.exhaust)
  from Suc.prems(1) have s: "s = QPL_STS_QUEUES_ARE_BUSY_ERR x"
    using execute_status_0 [OF ex] by auto
  have busy: "\<forall>i<k. execute_status x i j' e' = QPL_STS_QUEUES_ARE_BUSY_ERR x"
    using Suc.prems(1) execute_status_Suc [OF ex] by auto
  have last: "execute_status x k j' e' \<noteq> QPL_STS_QUEUES_ARE_BUSY_ERR x"
    using Suc.prems(2) execute_status_Suc [OF ex] by auto
  from Suc.IH [OF busy last, of "cs @ [Call_qpl_execute_job]"]
  show ?case using ex s
    by (subst execute_while_busy.simps)
       (simp add: execute_status_Suc [OF ex] replicate_app_Cons_same)
qed

lemmas execute_while_busy_induct =
  execute_while_busy.raw_induct [where xa = "((((x, s), j), e), cs)" and y = r for x s j e cs r,
    unfolded prod.case]

lemma execute_while_busy_Some:
  assumes "execute_while_busy x s j e cs = Some r"
  shows "fst r \<noteq> QPL_STS_QUEUES_ARE_BUSY_ERR x \<and>
   (s = QPL_STS_QUEUES_ARE_BUSY_ERR x \<longrightarrow>
      (\<exists>k. (\<forall>i<k. execute_status x i j e = QPL_STS_QUEUES_ARE_BUSY_ERR x) \<and>
           execute_status x k j e \<noteq> QPL_STS_QUEUES_ARE_BUSY_ERR x))"
proof (rule execute_while_busy_induct [OF _ assms])
  fix f :: "'a extern \<Rightarrow> qpl_status \<Rightarrow> qpl_job \<Rightarrow> 'a \<Rightarrow> call list
     \<Rightarrow> (qpl_status \<times> qpl_job \<times> 'a \<times> call list) option"
  fix x s j e cs r
  assume IH: "\<And>x s j e cs r. f x s j e cs = Some r \<Longrightarrow>
    fst r \<noteq> QPL_STS_QUEUES_ARE_BUSY_ERR x \<and>
    (s = QPL_STS_QUEUES_ARE_BUSY_ERR x \<longrightarrow>
      (\<exists>k. (\<forall>i<k. execute_status x i j e = QPL_STS_QUEUES_ARE_BUSY_ERR x) \<and>
           execute_status x k j e \<noteq> QPL_STS_QUEUES_ARE_BUSY_ERR x))"
  assume step: "(if s = QPL_STS_QUEUES_ARE_BUSY_ERR x
      then case qpl_execute_job x e j of
           ((status', j'), e') \<Rightarrow> f x status' j' e' (cs @ [Call_qpl_execute_job])
      else Some (s, j, e, cs)) = Some r"
  show "fst r \<noteq> QPL_STS_QUEUES_ARE_BUSY_ERR x \<and>
    (s = QPL_STS_QUEUES_ARE_BUSY_ERR x \<longrightarrow>
      (\<exists>k. (\<forall>i<k. execute_status x i j e = QPL_STS_QUEUES_ARE_BUSY_ERR x) \<and>
           execute_status x k j e \<noteq> QPL_STS_QUEUES_ARE_BUSY_ERR x))"
  proof (cases "s = QPL_STS_QUEUES_ARE_BUSY_ERR x")
    case False
    with step show ?thesis by auto
  next
    case True
    obtain s' j' e' where ex: "qpl_execute_job x e j = ((s', j'), e')"
      by (metis prod.exhaust)
    with step True have f: "f x s' j' e' (cs @ [Call_qpl_execute_job]) = Some r" by simp
    from IH [OF f] have nb: "fst r \<noteq> QPL_STS_QUEUES_ARE_BUSY_ERR x"
      and rec: "s' = QPL_STS_QUEUES_ARE_BUSY_ERR x \<longrightarrow>
        (\<exists>k. (\<forall>i<k. execute_status x i j' e' = QPL_STS_QUEUES_ARE_BUSY_ERR x) \<and>
             execute_status x k j' e' \<noteq> QPL_STS_QUEUES_ARE_BUSY_ERR x)" by auto
    show ?thesis
    proof (cases "s' = QPL_STS_QUEUES_ARE_BUSY_ERR x")
      case False
      then have "execute_status x 0 j e \<noteq> QPL_STS_QUEUES_ARE_BUSY_ERR x"
        using execute_status_0 [OF ex] by simp
      then show ?thesis using nb by (intro conjI impI exI [of _ 0]) auto
    next
      case True
      with rec obtain k where k: "\<forall>i<k. execute_status x i j' e' = QPL_STS_QUEUES_ARE_BUSY_ERR x"
        "execute_status x k j' e' \<noteq> QPL_STS_QUEUES_ARE_BUSY_ERR x" by auto
      have "\<forall>i<Suc k. execute_status x i j e = QPL_STS_QUEUES_ARE_BUSY_ERR x"
      proof (intro allI impI)
        fix i assume "i < Suc k"
        then show "execute_status x i j e = QPL_STS_QUEUES_ARE_BUSY_ERR x"
          using k(1) True execute_status_0 [OF ex] execute_status_Suc [OF ex]
          by (cases i) auto
      qed
      moreover have "execute_status x (Suc k) j e \<noteq> QPL_STS_QUEUES_ARE_BUSY_ERR x"
        using k(2) execute_status_Suc [OF ex] by simp
      ultimately show ?thesis using nb by (intro conjI impI exI [of _ "Suc k"]) auto
    qed
  qed
qed

lemma execute_while_busy_forever:
  "(\<forall>i. execute_status x i j e = QPL_STS_QUEUES_ARE_BUSY_ERR x) \<Longrightarrow>
   execute_while_busy x (QPL_STS_QUEUES_ARE_BUSY_ERR x) j e cs = None"
  using execute_while_busy_Some [of x "QPL_STS_QUEUES_ARE_BUSY_ERR x" j e cs]
  by (cases "execute_while_busy x (QPL_STS_QUEUES_ARE_BUSY_ERR x) j e cs") auto

section \<open>The size of the output buffer\<close>

lemma ceil_div_65535: "ceil_div n 65535 = n div 65535 + (if n mod 65535 \<noteq> 0 then 1 else 0)"
proof -
  obtain q r where n: "n = q * 65535 + r" "r < 65535"
    by (metis mod_less_divisor mult.commute mult_div_mod_eq zero_less_numeral)
  have q: "n div 65535 = q" and r: "n mod 65535 = r" using n by auto
  show ?thesis
  proof (cases "r = 0")
    case True
    then show ?thesis using n by (simp add: ceil_div_def)
  next
    case False
    have "(q * 65535 + r + 65534) div 65535 = q + (r + 65534) div 65535"
      by (metis (no_types, lifting) add.assoc div_mult_self3 zero_neq_numeral)
    moreover have "(r + 65534) div 65535 = 1" using False n(2)
      by (intro div_nat_eqI) auto
    ultimately show ?thesis using False q r n(1) by (simp add: ceil_div_def)
  qed
qed

lemma unat_stored_blocks:
  fixes n :: size_t
  shows "unat (n div 65535 + (if n mod 65535 \<noteq> 0 then 1 else 0)) = ceil_div (unat n) 65535"
proof -
  have d: "unat (n div 65535) = unat n div 65535" by (simp add: unat_div)
  have m: "n mod 65535 \<noteq> 0 \<longleftrightarrow> unat n mod 65535 \<noteq> 0"
  proof -
    have "unat (n mod 65535) = unat n mod 65535" by (simp add: unat_mod)
    then show ?thesis by (metis unat_eq_zero)
  qed
  have "unat n < 2 ^ 64" using unsigned_less [of n] by simp
  then have b: "unat n div 65535 + 1 < 2 ^ 64" by simp
  have one: "unat (n div 65535 + 1) = unat n div 65535 + 1"
    using b d by (simp add: unat_word_ariths)
  show ?thesis
  proof (cases "n mod 65535 = 0")
    case True
    then show ?thesis using d m by (simp add: ceil_div_65535)
  next
    case False
    then show ?thesis using one m by (simp add: ceil_div_65535)
  qed
qed

lemma unat_u32_bound: "unat (h :: u32) < 2 ^ 32"
  using unsigned_less [of h] by simp

lemma unat_ucast_u32_size_t: "unat (ucast (h :: u32) :: size_t) = unat h"
proof -
  have "unat h < 2 ^ 64" using unat_u32_bound [of h] by simp
  then show ?thesis by (simp add: unsigned_ucast_eq take_bit_nat_eq_self)
qed

lemma unat_add_size_t:
  "unat (a :: size_t) + unat b < 2 ^ 64 \<Longrightarrow> unat (a + b) = unat a + unat b"
  by (simp add: unat_word_ariths)

lemma unat_times_5_size_t:
  "unat (a :: size_t) * 5 < 2 ^ 64 \<Longrightarrow> unat (a * 5) = unat a * 5"
  by (simp add: unat_word_ariths)

lemma unat_worst_case:
  fixes n :: size_t and h :: u32
  assumes "unat n < 2 ^ 63"
  shows "unat (ucast h + n + (n div 65535 + (if n mod 65535 \<noteq> 0 then 1 else 0)) * 5)
         = unat h + unat n + 5 * ceil_div (unat n) 65535"
proof -
  let ?c = "n div 65535 + (if n mod 65535 \<noteq> 0 then 1 else 0)"
  have c: "unat ?c = ceil_div (unat n) 65535" by (rule unat_stored_blocks)
  have cb: "ceil_div (unat n) 65535 \<le> unat n div 65535 + 1"
    by (simp add: ceil_div_65535)
  have hb: "unat h < 2 ^ 32" by (rule unat_u32_bound)
  have nb: "unat n div 65535 + 1 < 2 ^ 48" using assms by simp
  have cb2: "ceil_div (unat n) 65535 < 2 ^ 48" using cb nb by simp
  have m5: "unat (?c * 5) = ceil_div (unat n) 65535 * 5"
    using unat_times_5_size_t [of ?c] cb2 c by simp
  have hn: "unat (ucast h + n) = unat h + unat n"
    using unat_add_size_t [of "ucast h" n] hb assms by (simp add: unat_ucast_u32_size_t)
  have "unat (ucast h + n) + unat (?c * 5) < 2 ^ 64"
    using hn m5 hb assms cb2 by simp
  from unat_add_size_t [OF this] show ?thesis using hn m5 by simp
qed

lemma unat_Compress_output_length:
  assumes "unat n < 2 ^ 63"
  shows "unat (Compress_output_length h n)
         = min (unat h + unat n + 5 * ceil_div (unat n) 65535) (2 ^ 32 - 1)"
proof -
  let ?w = "ucast h + n + (n div 65535 + (if n mod 65535 \<noteq> 0 then 1 else 0)) * 5"
  have w: "unat ?w = unat h + unat n + 5 * ceil_div (unat n) 65535"
    by (rule unat_worst_case [OF assms])
  have gt: "?w > 0xFFFFFFFF \<longleftrightarrow> unat ?w > 2 ^ 32 - 1"
    by (simp add: word_less_nat_alt)
  show ?thesis
  proof (cases "?w > 0xFFFFFFFF")
    case True
    then have "Compress_output_length h n = 0xFFFFFFFF"
      by (simp add: Compress_output_length_def Let_def)
    then show ?thesis using True gt w by simp
  next
    case False
    then have "Compress_output_length h n = ?w"
      by (simp add: Compress_output_length_def Let_def)
    then show ?thesis using False gt w by simp
  qed
qed

lemma length_resize: "length (resize n s) = n"
  by (simp add: resize_def)

lemma Compress_prepare_eq:
  "Compress_prepare input output =
     (of_nat (length (output @ EncodeVarint32 (ucast (slice_size input)))),
      Compress_output_length
        (of_nat (length (output @ EncodeVarint32 (ucast (slice_size input))))) (slice_size input),
      resize (unat (Compress_output_length
        (of_nat (length (output @ EncodeVarint32 (ucast (slice_size input))))) (slice_size input)))
        (output @ EncodeVarint32 (ucast (slice_size input))))"
  by (simp add: Compress_prepare_def EncodeSize_def PutVarint32_def Let_def)

section \<open>The paths through \<open>Compress\<close> and \<open>Uncompress\<close>\<close>

lemma get_deflate_job_cases [consumes 1, case_names cached size_failed alloc_failed init_failed fresh]:
  assumes "get_deflate_job x t p w = (r, w1)"
  obtains
    (cached) b where "deflate_job_cache w t p = Some b" "r = Inr (job b)" "w1 = w"
  | (size_failed) status sz e1 where
      "deflate_job_cache w t p = None"
      "qpl_get_job_size x (env w) p = ((status, sz), e1)"
      "status \<noteq> QPL_STS_OK x"
      "r = Inl (Corruption (QPL_STATUS status))"
      "w1 = w\<lparr>env := e1, calls := calls w @ [Call_qpl_get_job_size p]\<rparr>"
  | (alloc_failed) sz e1 e2 where
      "deflate_job_cache w t p = None"
      "qpl_get_job_size x (env w) p = ((QPL_STS_OK x, sz), e1)"
      "make_unique x e1 sz = (False, e2)"
      "r = Inl (Corruption MEMORY_ALLOCATION_ERROR)"
      "w1 = w\<lparr>env := e2, calls := calls w @ [Call_qpl_get_job_size p, Call_make_unique sz]\<rparr>"
  | (init_failed) sz e1 e2 status j e3 where
      "deflate_job_cache w t p = None"
      "qpl_get_job_size x (env w) p = ((QPL_STS_OK x, sz), e1)"
      "make_unique x e1 sz = (True, e2)"
      "qpl_init_job x e2 p = ((status, j), e3)"
      "status \<noteq> QPL_STS_OK x"
      "r = Inl (Corruption (QPL_STATUS status))"
      "w1 = w\<lparr>deflate_job_cache := (deflate_job_cache w)
                 (t := (deflate_job_cache w t)(p \<mapsto> \<lparr>job = j, initialized = False\<rparr>)),
               env := e3,
               calls := calls w @ [Call_qpl_get_job_size p, Call_make_unique sz, Call_qpl_init_job p]\<rparr>"
  | (fresh) sz e1 e2 j e3 where
      "deflate_job_cache w t p = None"
      "qpl_get_job_size x (env w) p = ((QPL_STS_OK x, sz), e1)"
      "make_unique x e1 sz = (True, e2)"
      "qpl_init_job x e2 p = ((QPL_STS_OK x, j), e3)"
      "r = Inr j"
      "w1 = w\<lparr>deflate_job_cache := (deflate_job_cache w)
                 (t := (deflate_job_cache w t)(p \<mapsto> \<lparr>job = j, initialized = True\<rparr>)),
               env := e3,
               calls := calls w @ [Call_qpl_get_job_size p, Call_make_unique sz, Call_qpl_init_job p]\<rparr>"
proof (cases "deflate_job_cache w t p")
  case (Some b)
  with assms show ?thesis by (intro cached [of b]) (auto simp: get_deflate_job_def)
next
  case None
  obtain status sz e1 where gs: "qpl_get_job_size x (env w) p = ((status, sz), e1)"
    by (metis prod.exhaust)
  show ?thesis
  proof (cases "status = QPL_STS_OK x")
    case False
    with assms None gs show ?thesis
      by (intro size_failed [of status sz e1]) (auto simp: get_deflate_job_def Let_def)
  next
    case ok: True
    obtain allocated e2 where mu: "make_unique x e1 sz = (allocated, e2)"
      by (metis prod.exhaust)
    show ?thesis
    proof (cases allocated)
      case False
      with assms None gs ok mu show ?thesis
        by (intro alloc_failed [of sz e1 e2]) (auto simp: get_deflate_job_def Let_def)
    next
      case True
      obtain status' j e3 where ij: "qpl_init_job x e2 p = ((status', j), e3)"
        by (metis prod.exhaust)
      show ?thesis
      proof (cases "status' = QPL_STS_OK x")
        case False
        with assms None gs ok mu True ij show ?thesis
          by (intro init_failed [of sz e1 e2 status' j e3])
             (auto simp: get_deflate_job_def Let_def)
      next
        case True': True
        with assms None gs ok mu True ij show ?thesis
          by (intro fresh [of sz e1 e2 j e3]) (auto simp: get_deflate_job_def Let_def)
      qed
    qed
  qed
qed

lemma get_inflate_job_cases [consumes 1, case_names cached size_failed alloc_failed init_failed fresh]:
  assumes "get_inflate_job x t p w = (r, w1)"
  obtains
    (cached) b where "inflate_job_cache w t p = Some b" "r = Inr (job b)" "w1 = w"
  | (size_failed) status sz e1 where
      "inflate_job_cache w t p = None"
      "qpl_get_job_size x (env w) p = ((status, sz), e1)"
      "status \<noteq> QPL_STS_OK x"
      "r = Inl (Corruption (QPL_STATUS status))"
      "w1 = w\<lparr>env := e1, calls := calls w @ [Call_qpl_get_job_size p]\<rparr>"
  | (alloc_failed) sz e1 e2 where
      "inflate_job_cache w t p = None"
      "qpl_get_job_size x (env w) p = ((QPL_STS_OK x, sz), e1)"
      "make_unique x e1 sz = (False, e2)"
      "r = Inl (Corruption MEMORY_ALLOCATION_ERROR)"
      "w1 = w\<lparr>env := e2, calls := calls w @ [Call_qpl_get_job_size p, Call_make_unique sz]\<rparr>"
  | (init_failed) sz e1 e2 status j e3 where
      "inflate_job_cache w t p = None"
      "qpl_get_job_size x (env w) p = ((QPL_STS_OK x, sz), e1)"
      "make_unique x e1 sz = (True, e2)"
      "qpl_init_job x e2 p = ((status, j), e3)"
      "status \<noteq> QPL_STS_OK x"
      "r = Inl (Corruption (QPL_STATUS status))"
      "w1 = w\<lparr>inflate_job_cache := (inflate_job_cache w)
                 (t := (inflate_job_cache w t)(p \<mapsto> \<lparr>job = j, initialized = False\<rparr>)),
               env := e3,
               calls := calls w @ [Call_qpl_get_job_size p, Call_make_unique sz, Call_qpl_init_job p]\<rparr>"
  | (fresh) sz e1 e2 j e3 where
      "inflate_job_cache w t p = None"
      "qpl_get_job_size x (env w) p = ((QPL_STS_OK x, sz), e1)"
      "make_unique x e1 sz = (True, e2)"
      "qpl_init_job x e2 p = ((QPL_STS_OK x, j), e3)"
      "r = Inr j"
      "w1 = w\<lparr>inflate_job_cache := (inflate_job_cache w)
                 (t := (inflate_job_cache w t)(p \<mapsto> \<lparr>job = j, initialized = True\<rparr>)),
               env := e3,
               calls := calls w @ [Call_qpl_get_job_size p, Call_make_unique sz, Call_qpl_init_job p]\<rparr>"
proof (cases "inflate_job_cache w t p")
  case (Some b)
  with assms show ?thesis by (intro cached [of b]) (auto simp: get_inflate_job_def)
next
  case None
  obtain status sz e1 where gs: "qpl_get_job_size x (env w) p = ((status, sz), e1)"
    by (metis prod.exhaust)
  show ?thesis
  proof (cases "status = QPL_STS_OK x")
    case False
    with assms None gs show ?thesis
      by (intro size_failed [of status sz e1]) (auto simp: get_inflate_job_def Let_def)
  next
    case ok: True
    obtain allocated e2 where mu: "make_unique x e1 sz = (allocated, e2)"
      by (metis prod.exhaust)
    show ?thesis
    proof (cases allocated)
      case False
      with assms None gs ok mu show ?thesis
        by (intro alloc_failed [of sz e1 e2]) (auto simp: get_inflate_job_def Let_def)
    next
      case True
      obtain status' j e3 where ij: "qpl_init_job x e2 p = ((status', j), e3)"
        by (metis prod.exhaust)
      show ?thesis
      proof (cases "status' = QPL_STS_OK x")
        case False
        with assms None gs ok mu True ij show ?thesis
          by (intro init_failed [of sz e1 e2 status' j e3])
             (auto simp: get_inflate_job_def Let_def)
      next
        case True': True
        with assms None gs ok mu True ij show ?thesis
          by (intro fresh [of sz e1 e2 j e3]) (auto simp: get_inflate_job_def Let_def)
      qed
    qed
  qed
qed


lemma Compress_no_job:
  assumes "Compress_prepare input output = (h, cap, out1)"
    and "get_deflate_job x t (execution_path options) w = (Inl st, w1)"
  shows "Compress x options t input output w = Some (st, out1, w1)"
  using assms by (simp add: Compress_def)

lemma Compress_executed:
  assumes "Compress_prepare input output = (h, cap, out1)"
    and "get_deflate_job x t (execution_path options) w = (Inr j, w1)"
    and "execute_while_busy x (QPL_STS_QUEUES_ARE_BUSY_ERR x)
           (Compress_set_job x options input h cap out1 j) (env w1) (calls w1)
         = Some (status, j', e', cs')"
  shows "Compress x options t input output w =
     Some (if status \<noteq> QPL_STS_OK x then Corruption (QPL_STATUS status) else OK,
           if status \<noteq> QPL_STS_OK x
           then take (unat h) out1 @ store (drop (unat h) out1) (next_out_ptr j')
           else resize (unat (h + total_out j'))
                  (take (unat h) out1 @ store (drop (unat h) out1) (next_out_ptr j')),
           put_deflate_job t (execution_path options) j' (w1\<lparr>env := e', calls := cs'\<rparr>))"
  using assms by (simp add: Compress_def Let_def)

lemma Compress_never_returns:
  assumes "Compress_prepare input output = (h, cap, out1)"
    and "get_deflate_job x t (execution_path options) w = (Inr j, w1)"
    and "execute_while_busy x (QPL_STS_QUEUES_ARE_BUSY_ERR x)
           (Compress_set_job x options input h cap out1 j) (env w1) (calls w1) = None"
  shows "Compress x options t input output w = None"
  using assms by (simp add: Compress_def Let_def)

lemma Compress_cases [consumes 2, case_names no_job executed]:
  assumes "Compress x options t input output w = Some (st, out', w')"
    and "Compress_prepare input output = (h, cap, out1)"
  obtains
    (no_job) "get_deflate_job x t (execution_path options) w = (Inl st, w')" "out' = out1"
  | (executed) j w1 status j' e' cs' where
      "get_deflate_job x t (execution_path options) w = (Inr j, w1)"
      "execute_while_busy x (QPL_STS_QUEUES_ARE_BUSY_ERR x)
           (Compress_set_job x options input h cap out1 j) (env w1) (calls w1)
         = Some (status, j', e', cs')"
      "st = (if status \<noteq> QPL_STS_OK x then Corruption (QPL_STATUS status) else OK)"
      "out' = (if status \<noteq> QPL_STS_OK x
           then take (unat h) out1 @ store (drop (unat h) out1) (next_out_ptr j')
           else resize (unat (h + total_out j'))
                  (take (unat h) out1 @ store (drop (unat h) out1) (next_out_ptr j')))"
      "w' = put_deflate_job t (execution_path options) j' (w1\<lparr>env := e', calls := cs'\<rparr>)"
proof -
  obtain r w1 where g: "get_deflate_job x t (execution_path options) w = (r, w1)"
    by (metis prod.exhaust)
  show ?thesis
  proof (cases r)
    case (Inl s)
    with g assms Compress_no_job [OF assms(2), of x t options w s w1] show ?thesis
      by (intro no_job) auto
  next
    case (Inr j)
    show ?thesis
    proof (cases "execute_while_busy x (QPL_STS_QUEUES_ARE_BUSY_ERR x)
           (Compress_set_job x options input h cap out1 j) (env w1) (calls w1)")
      case None
      with Compress_never_returns [OF assms(2), of x t options w j w1] g Inr assms(1)
      show ?thesis by simp
    next
      case (Some res)
      obtain status j' e' cs' where res: "res = (status, j', e', cs')"
        by (metis prod.exhaust)
      from Compress_executed [OF assms(2), of x t options w j w1 status j' e' cs']
        g Inr Some res assms(1)
      show ?thesis by (intro executed [of j w1 status j' e' cs']) auto
    qed
  qed
qed


lemma Uncompress_framing_error:
  assumes "DecodeSize input input_length = None"
  shows "Uncompress x options t info input input_length output output_length w =
     Some (Corruption ''size decoding error'', output, output_length, w)"
  using assms by (simp add: Uncompress_def)

lemma Uncompress_throws:
  assumes "DecodeSize input input_length = Some (input1, len1, n)"
    and "Allocate (env w) (ucast n) (GetMemoryAllocator info) = (Throws_bad_alloc, e1)"
  shows "Uncompress x options t info input input_length output output_length w =
     Some (Corruption MEMORY_ALLOCATION_ERROR, output, output_length,
           w\<lparr>env := e1, calls := calls w @ [Call_Allocate (ucast n)]\<rparr>)"
  using assms by (simp add: Uncompress_def)

lemma Uncompress_null:
  assumes "DecodeSize input input_length = Some (input1, len1, n)"
    and "Allocate (env w) (ucast n) (GetMemoryAllocator info) = (Returns nullptr, e1)"
  shows "Uncompress x options t info input input_length output output_length w =
     Some (Corruption MEMORY_ALLOCATION_ERROR, nullptr, output_length,
           w\<lparr>env := e1, calls := calls w @ [Call_Allocate (ucast n)]\<rparr>)"
  using assms by (simp add: Uncompress_def)

lemma Uncompress_no_job:
  assumes "DecodeSize input input_length = Some (input1, len1, n)"
    and "Allocate (env w) (ucast n) (GetMemoryAllocator info) = (Returns (Ptr a dest), e1)"
    and "get_inflate_job x t (execution_path options)
           (w\<lparr>env := e1, calls := calls w @ [Call_Allocate (ucast n)]\<rparr>) = (Inl st, w1)"
  shows "Uncompress x options t info input input_length output output_length w =
     Some (st, Ptr a dest, output_length, w1)"
  using assms by (simp add: Uncompress_def)

lemma Uncompress_executed:
  assumes "DecodeSize input input_length = Some (input1, len1, n)"
    and "Allocate (env w) (ucast n) (GetMemoryAllocator info) = (Returns (Ptr a dest), e1)"
    and "get_inflate_job x t (execution_path options)
           (w\<lparr>env := e1, calls := calls w @ [Call_Allocate (ucast n)]\<rparr>) = (Inr j, w1)"
    and "execute_while_busy x (QPL_STS_QUEUES_ARE_BUSY_ERR x)
           (Uncompress_set_job input1 len1 dest n j) (env w1) (calls w1)
         = Some (status, j', e', cs')"
  shows "Uncompress x options t info input input_length output output_length w =
     Some (if status \<noteq> QPL_STS_OK x then Corruption (QPL_STATUS status)
           else if total_out j' \<noteq> n then Corruption ''size mismatch'' else OK,
           Ptr a (store dest (next_out_ptr j')),
           if status = QPL_STS_OK x \<and> total_out j' = n then ucast (total_out j')
           else output_length,
           put_inflate_job t (execution_path options) j' (w1\<lparr>env := e', calls := cs'\<rparr>))"
  using assms by (simp add: Uncompress_def Let_def)

lemma Uncompress_never_returns:
  assumes "DecodeSize input input_length = Some (input1, len1, n)"
    and "Allocate (env w) (ucast n) (GetMemoryAllocator info) = (Returns (Ptr a dest), e1)"
    and "get_inflate_job x t (execution_path options)
           (w\<lparr>env := e1, calls := calls w @ [Call_Allocate (ucast n)]\<rparr>) = (Inr j, w1)"
    and "execute_while_busy x (QPL_STS_QUEUES_ARE_BUSY_ERR x)
           (Uncompress_set_job input1 len1 dest n j) (env w1) (calls w1) = None"
  shows "Uncompress x options t info input input_length output output_length w = None"
  using assms by (simp add: Uncompress_def Let_def)

lemma Uncompress_cases [consumes 1, case_names framing throws null no_job executed]:
  assumes "Uncompress x options t info input input_length output output_length w
           = Some (st, out', len', w')"
  obtains
    (framing) "DecodeSize input input_length = None"
      "st = Corruption ''size decoding error''" "out' = output" "len' = output_length" "w' = w"
  | (throws) input1 len1 n e1 where
      "DecodeSize input input_length = Some (input1, len1, n)"
      "Allocate (env w) (ucast n) (GetMemoryAllocator info) = (Throws_bad_alloc, e1)"
      "st = Corruption MEMORY_ALLOCATION_ERROR" "out' = output" "len' = output_length"
      "w' = w\<lparr>env := e1, calls := calls w @ [Call_Allocate (ucast n)]\<rparr>"
  | (null) input1 len1 n e1 where
      "DecodeSize input input_length = Some (input1, len1, n)"
      "Allocate (env w) (ucast n) (GetMemoryAllocator info) = (Returns nullptr, e1)"
      "st = Corruption MEMORY_ALLOCATION_ERROR" "out' = nullptr" "len' = output_length"
      "w' = w\<lparr>env := e1, calls := calls w @ [Call_Allocate (ucast n)]\<rparr>"
  | (no_job) input1 len1 n a dest e1 where
      "DecodeSize input input_length = Some (input1, len1, n)"
      "Allocate (env w) (ucast n) (GetMemoryAllocator info) = (Returns (Ptr a dest), e1)"
      "get_inflate_job x t (execution_path options)
           (w\<lparr>env := e1, calls := calls w @ [Call_Allocate (ucast n)]\<rparr>) = (Inl st, w')"
      "out' = Ptr a dest" "len' = output_length"
  | (executed) input1 len1 n a dest e1 j w1 status j' e' cs' where
      "DecodeSize input input_length = Some (input1, len1, n)"
      "Allocate (env w) (ucast n) (GetMemoryAllocator info) = (Returns (Ptr a dest), e1)"
      "get_inflate_job x t (execution_path options)
           (w\<lparr>env := e1, calls := calls w @ [Call_Allocate (ucast n)]\<rparr>) = (Inr j, w1)"
      "execute_while_busy x (QPL_STS_QUEUES_ARE_BUSY_ERR x)
           (Uncompress_set_job input1 len1 dest n j) (env w1) (calls w1)
         = Some (status, j', e', cs')"
      "st = (if status \<noteq> QPL_STS_OK x then Corruption (QPL_STATUS status)
           else if total_out j' \<noteq> n then Corruption ''size mismatch'' else OK)"
      "out' = Ptr a (store dest (next_out_ptr j'))"
      "len' = (if status = QPL_STS_OK x \<and> total_out j' = n then ucast (total_out j')
           else output_length)"
      "w' = put_inflate_job t (execution_path options) j' (w1\<lparr>env := e', calls := cs'\<rparr>)"
proof (cases "DecodeSize input input_length")
  case None
  from assms [unfolded Uncompress_framing_error [OF None]]
  show ?thesis by (intro framing) (auto simp: None)
next
  case (Some d)
  obtain input1 len1 n where d: "d = (input1, len1, n)" by (metis prod.exhaust)
  note dec = Some [unfolded d]
  obtain r e1 where al: "Allocate (env w) (ucast n) (GetMemoryAllocator info) = (r, e1)"
    by (metis prod.exhaust)
  show ?thesis
  proof (cases r)
    case Throws_bad_alloc
    note al' = al [unfolded Throws_bad_alloc]
    from assms [unfolded Uncompress_throws [OF dec al']]
    show ?thesis by (intro throws [of input1 len1 n e1]) (auto simp: dec al')
  next
    case (Returns p)
    show ?thesis
    proof (cases p)
      case nullptr
      note al' = al [unfolded Returns nullptr]
      from assms [unfolded Uncompress_null [OF dec al']]
      show ?thesis by (intro null [of input1 len1 n e1]) (auto simp: dec al')
    next
      case (Ptr a dest)
      note al' = al [unfolded Returns Ptr]
      let ?w = "w\<lparr>env := e1, calls := calls w @ [Call_Allocate (ucast n)]\<rparr>"
      obtain g w1 where g: "get_inflate_job x t (execution_path options) ?w = (g, w1)"
        by (metis prod.exhaust)
      show ?thesis
      proof (cases g)
        case (Inl s)
        note g' = g [unfolded Inl]
        from assms [unfolded Uncompress_no_job [OF dec al' g']]
        show ?thesis by (intro no_job [of input1 len1 n a dest e1]) (auto simp: dec al' g')
      next
        case (Inr j)
        note g' = g [unfolded Inr]
        show ?thesis
        proof (cases "execute_while_busy x (QPL_STS_QUEUES_ARE_BUSY_ERR x)
           (Uncompress_set_job input1 len1 dest n j) (env w1) (calls w1)")
          case None
          from assms [unfolded Uncompress_never_returns [OF dec al' g' None]]
          show ?thesis by simp
        next
          case (Some res)
          obtain status j' e' cs' where res: "res = (status, j', e', cs')"
            by (metis prod.exhaust)
          from assms [unfolded Uncompress_executed [OF dec al' g' Some [unfolded res]]]
          show ?thesis
            by (intro executed [of input1 len1 n a dest e1 j w1 status j' e' cs'])
               (auto simp: dec al' g' Some res)
        qed
      qed
    qed
  qed
qed

section \<open>Resized strings and destination regions\<close>

lemma length_store: "length (store region written) = length region"
  by (simp add: store_def)

lemma length_written_back:
  "length (take h out1 @ store (drop h out1) written) = length out1"
  by (simp add: length_store)

lemma take_resize_prefix:
  "length p \<le> n \<Longrightarrow> take (length p) (resize n (p @ r)) = p"
  by (simp add: resize_def)

section \<open>Failures of \<open>Uncompress\<close>\<close>

lemma GetVarint32PtrLoop_truncated:
  "\<forall>b \<in> set p. b AND 128 \<noteq> 0 \<Longrightarrow> GetVarint32PtrLoop shift result p = None"
proof (induction p arbitrary: shift result)
  case Nil
  show ?case by (subst GetVarint32PtrLoop.simps) simp
next
  case (Cons b p)
  then show ?case by (subst GetVarint32PtrLoop.simps) simp
qed

lemma DecodeSize_truncated:
  "\<forall>b \<in> set (take (unat input_length) input). b AND 128 \<noteq> 0 \<Longrightarrow>
   DecodeSize input input_length = None"
  by (simp add: DecodeSize_def GetVarint32Ptr_def GetVarint32PtrLoop_truncated)

text \<open>
  Claim C4. When every byte among the first \<open>input_length\<close> bytes of the input has its
  continuation bit set (the prefix is empty, as for a 0-byte input, or breaks off inside
  the varint), \<open>Uncompress\<close> returns \<open>Corruption("size decoding error")\<close> and nothing
  else happens: \<open>*output\<close> and \<open>*output_length\<close> keep their values and the state is
  returned unchanged, so the log of calls has no allocation and the environment, where
  the allocator lives, is untouched.
\<close>

theorem C4_truncated_prefix:
  assumes "\<forall>b \<in> set (take (unat input_length) input). b AND 128 \<noteq> 0"
  shows "Uncompress x options t info input input_length output output_length w
         = Some (Corruption ''size decoding error'', output, output_length, w)"
  using DecodeSize_truncated [OF assms] by (rule Uncompress_framing_error)

theorem C4_truncated_prefix_witness:
  "take (unat (0 :: size_t)) framed_abc = []
   \<and> Uncompress (copy_double 0 0 (\<lambda>n. 0)) default_options 0 default_info framed_abc 0 garbage 77
         (initial_world 0)
       = Some (Corruption ''size decoding error'', garbage, 77, initial_world 0)
   \<and> calls (initial_world (0 :: nat)) = []
   \<and> take (unat (2 :: size_t)) [172, 130, 1 :: u8] = [172, 130]
   \<and> (172 :: u8) AND 128 \<noteq> 0 \<and> (130 :: u8) AND 128 \<noteq> 0
   \<and> Uncompress (copy_double 0 0 (\<lambda>n. 0)) default_options 0 default_info [172, 130, 1] 2 garbage 77
         (initial_world 0)
       = Some (Corruption ''size decoding error'', garbage, 77, initial_world 0)"
proof -
  have a: "\<forall>b \<in> set (take (unat (0 :: size_t)) framed_abc). b AND 128 \<noteq> 0" by simp
  have t: "take (unat (2 :: size_t)) [172, 130, 1 :: u8] = [172, 130]" by code_simp
  have c: "(172 :: u8) AND 128 \<noteq> 0" "(130 :: u8) AND 128 \<noteq> 0" by code_simp+
  have b: "\<forall>b \<in> set (take (unat (2 :: size_t)) [172, 130, 1 :: u8]). b AND 128 \<noteq> 0"
    unfolding t using c by simp
  show ?thesis
    using t c
    by (simp only: C4_truncated_prefix [OF a] C4_truncated_prefix [OF b])
       (simp add: initial_world_def)
qed

text \<open>
  Claim C5. When the prefix decodes and the allocator fails, by returning null or by
  throwing \<open>std::bad_alloc\<close>, \<open>Uncompress\<close> returns
  \<open>Corruption("memory allocation error")\<close>: the same status for both conventions. (They
  differ in \<open>*output\<close> only, which is null after a null return and unassigned after the
  exception.)
\<close>

theorem C5_allocator_failure:
  assumes "DecodeSize input input_length = Some (input1, len1, n)"
    and "Allocate (env w) (ucast n) (GetMemoryAllocator info) = (r, e1)"
    and "r = Returns nullptr \<or> r = Throws_bad_alloc"
  shows "Uncompress x options t info input input_length out out_length w
         = Some (Corruption ''memory allocation error'',
                 (if r = Throws_bad_alloc then out else nullptr), out_length,
                 w\<lparr>env := e1, calls := calls w @ [Call_Allocate (ucast n)]\<rparr>)"
proof (cases "r = Throws_bad_alloc")
  case True
  with Uncompress_throws [OF assms(1), of w info e1] assms(2) show ?thesis
    by (simp add: MEMORY_ALLOCATION_ERROR_def)
next
  case False
  with assms(3) have "r = Returns nullptr" by simp
  with Uncompress_null [OF assms(1), of w info e1] assms(2) show ?thesis
    by (simp add: MEMORY_ALLOCATION_ERROR_def)
qed

lemma DecodeSize_framed_abc: "DecodeSize framed_abc 4 = Some ([97, 98, 99], 3, 3)"
  by code_simp

theorem C5_allocator_failure_witness:
  "DecodeSize framed_abc 4 = Some ([97, 98, 99], 3, 3)
   \<and> Allocate (env (initial_world (0 :: nat))) (ucast (3 :: u32)) (GetMemoryAllocator null_info)
       = (Returns nullptr, 0)
   \<and> Allocate (env (initial_world (0 :: nat))) (ucast (3 :: u32))
         (GetMemoryAllocator exception_info) = (Throws_bad_alloc, 0)
   \<and> Uncompress (copy_double 0 0 (\<lambda>n. 0)) default_options 0 null_info framed_abc 4 garbage 77
         (initial_world 0)
       = Some (Corruption ''memory allocation error'', nullptr, 77,
               (initial_world 0)\<lparr>env := 0, calls := [Call_Allocate 3]\<rparr>)
   \<and> Uncompress (copy_double 0 0 (\<lambda>n. 0)) default_options 0 exception_info framed_abc 4 garbage
         77 (initial_world 0)
       = Some (Corruption ''memory allocation error'', garbage, 77,
               (initial_world 0)\<lparr>env := 0, calls := [Call_Allocate 3]\<rparr>)"
proof -
  have n: "Allocate (env (initial_world (0 :: nat))) (ucast (3 :: u32))
             (GetMemoryAllocator null_info) = (Returns nullptr, 0)"
    by (simp add: Allocate_def null_info_def NullMemoryAllocator_def initial_world_def)
  have e: "Allocate (env (initial_world (0 :: nat))) (ucast (3 :: u32))
             (GetMemoryAllocator exception_info) = (Throws_bad_alloc, 0)"
    by (simp add: Allocate_def exception_info_def ExceptionMemoryAllocator_def initial_world_def)
  have r1: "Returns nullptr = Returns nullptr \<or> Returns nullptr = Throws_bad_alloc"
    and r2: "Throws_bad_alloc = Returns nullptr \<or> Throws_bad_alloc = Throws_bad_alloc"
    by simp_all
  note by_null = C5_allocator_failure [OF DecodeSize_framed_abc n r1,
      where x = "copy_double 0 0 (\<lambda>n. 0)" and options = default_options and t = 0
        and out = garbage and out_length = 77]
  note by_exception = C5_allocator_failure [OF DecodeSize_framed_abc e r2,
      where x = "copy_double 0 0 (\<lambda>n. 0)" and options = default_options and t = 0
        and out = garbage and out_length = 77]
  from by_null by_exception n e DecodeSize_framed_abc show ?thesis
    by (simp add: initial_world_def)
qed

text \<open>
  Claim C6. When the prefix decodes to \<open>n\<close>, the buffer is allocated, the job is obtained and
  the backend ends the retry loop with \<open>QPL_STS_OK\<close>, then \<open>Uncompress\<close> returns
  \<open>Corruption("size mismatch")\<close> if \<open>job->total_out\<close> differs from \<open>n\<close>, leaving
  \<open>*output_length\<close> unassigned, and returns \<open>OK\<close> with the output pointer and
  \<open>*output_length = n\<close> if they are equal. So this call returns \<open>OK\<close> only with
  \<open>total_out = n\<close>.
\<close>

theorem C6_size_mismatch:
  assumes "DecodeSize input input_length = Some (input1, len1, n)"
    and "Allocate (env w) (ucast n) (GetMemoryAllocator info) = (Returns (Ptr a dest), e1)"
    and "get_inflate_job x t (execution_path options)
           (w\<lparr>env := e1, calls := calls w @ [Call_Allocate (ucast n)]\<rparr>) = (Inr j, w1)"
    and "execute_while_busy x (QPL_STS_QUEUES_ARE_BUSY_ERR x)
           (Uncompress_set_job input1 len1 dest n j) (env w1) (calls w1)
         = Some (QPL_STS_OK x, j', e', cs')"
  shows "Uncompress x options t info input input_length out out_length w =
           Some (if total_out j' \<noteq> n then Corruption ''size mismatch'' else OK,
                 Ptr a (store dest (next_out_ptr j')),
                 if total_out j' \<noteq> n then out_length else ucast n,
                 put_inflate_job t (execution_path options) j' (w1\<lparr>env := e', calls := cs'\<rparr>))
         \<and> (\<forall>out' len' w'.
               Uncompress x options t info input input_length out out_length w
                 = Some (OK, out', len', w')
               \<longrightarrow> total_out j' = n \<and> len' = ucast n
                   \<and> out' = Ptr a (store dest (next_out_ptr j')))"
  using Uncompress_executed [OF assms, of out out_length] by auto

lemma framed_abc_inflate_job:
  "get_inflate_job (copy_double 0 0 exec_status) 0 (execution_path default_options)
     ((initial_world 0)\<lparr>env := 0, calls := calls (initial_world 0) @ [Call_Allocate (ucast (3 :: u32))]\<rparr>)
   = (Inr blank_job,
      \<lparr>deflate_job_cache = (\<lambda>t p. None),
       inflate_job_cache = (\<lambda>t p. None)
         (0 := (\<lambda>p. None)(qpl_path_auto \<mapsto> \<lparr>job = blank_job, initialized = True\<rparr>)),
       env = 0,
       calls = [Call_Allocate 3, Call_qpl_get_job_size qpl_path_auto, Call_make_unique 4096,
                Call_qpl_init_job qpl_path_auto]\<rparr>)"
  by (simp add: get_inflate_job_def copy_double_def initial_world_def default_options_def)

lemma copy_double_executes:
  "execute_while_busy (copy_double 0 0 (\<lambda>n. 0))
     (QPL_STS_QUEUES_ARE_BUSY_ERR (copy_double 0 0 (\<lambda>n. 0))) j e cs
   = Some (QPL_STS_OK (copy_double 0 0 (\<lambda>n. 0)),
           j\<lparr>next_out_ptr := take (unat (available_in j)) (next_in_ptr j),
             total_out := available_in j\<rparr>, Suc e, cs @ [Call_qpl_execute_job])"
  by (simp add: execute_while_busy.simps copy_double_def)

lemma copy_double_fails:
  "s \<noteq> 0 \<Longrightarrow> s \<noteq> 5 \<Longrightarrow>
   execute_while_busy (copy_double a b (\<lambda>n. s))
     (QPL_STS_QUEUES_ARE_BUSY_ERR (copy_double a b (\<lambda>n. s))) j e cs
   = Some (s, j, Suc e, cs @ [Call_qpl_execute_job])"
  by (simp add: execute_while_busy.simps copy_double_def)

theorem C6_size_mismatch_witness:
  "DecodeSize framed_abc 4 = Some ([97, 98, 99], 3, 3)
   \<and> (\<exists>w'. Uncompress (copy_double 0 0 (\<lambda>n. 0)) default_options 0 default_info framed_abc 4
               garbage 77 (initial_world 0)
             = Some (OK, Ptr 4096 [97, 98, 99], 3, w'))
   \<and> DecodeSize framed_abc 3 = Some ([97, 98, 99], 2, 3)
   \<and> (\<exists>w'. Uncompress (copy_double 0 0 (\<lambda>n. 0)) default_options 0 default_info framed_abc 3
               garbage 77 (initial_world 0)
             = Some (Corruption ''size mismatch'', Ptr 4096 [97, 98, 0], 77, w'))"
proof -
  have d3: "DecodeSize framed_abc 3 = Some ([97, 98, 99], 2, 3)" by code_simp
  have al: "Allocate (env (initial_world (0 :: nat))) (ucast (3 :: u32))
              (GetMemoryAllocator default_info) = (Returns (Ptr 4096 [0, 0, 0]), 0)"
    by code_simp
  note full = C6_size_mismatch [OF DecodeSize_framed_abc al framed_abc_inflate_job
      copy_double_executes, of garbage 77]
  note part = C6_size_mismatch [OF d3 al framed_abc_inflate_job
      copy_double_executes, of garbage 77]
  have "\<exists>w'. Uncompress (copy_double 0 0 (\<lambda>n. 0)) default_options 0 default_info framed_abc 4
               garbage 77 (initial_world 0)
             = Some (OK, Ptr 4096 [97, 98, 99], 3, w')"
    using full [THEN conjunct1] by (simp add: Uncompress_set_job_def store_def)
  moreover
  have "\<exists>w'. Uncompress (copy_double 0 0 (\<lambda>n. 0)) default_options 0 default_info framed_abc 3
               garbage 77 (initial_world 0)
             = Some (Corruption ''size mismatch'', Ptr 4096 [97, 98, 0], 77, w')"
    using part [THEN conjunct1] by (simp add: Uncompress_set_job_def store_def)
  ultimately show ?thesis using DecodeSize_framed_abc d3 by blast
qed

lemma execute_while_busy_calls:
  assumes "execute_while_busy x s j e cs = Some (s', j', e', cs')"
  shows "\<exists>k. cs' = cs @ replicate k Call_qpl_execute_job
             \<and> (s = QPL_STS_QUEUES_ARE_BUSY_ERR x \<longrightarrow> 1 \<le> k)"
proof (cases "s = QPL_STS_QUEUES_ARE_BUSY_ERR x")
  case False
  with assms have "cs' = cs" by (subst (asm) execute_while_busy.simps) simp
  with False show ?thesis by (intro exI [of _ 0]) simp
next
  case True
  with execute_while_busy_Some [OF assms] obtain k where
    "\<forall>i<k. execute_status x i j e = QPL_STS_QUEUES_ARE_BUSY_ERR x"
    "execute_status x k j e \<noteq> QPL_STS_QUEUES_ARE_BUSY_ERR x" by auto
  from execute_while_busy_returns [OF this, of cs] assms True
  have "cs' = cs @ replicate (Suc k) Call_qpl_execute_job" by simp
  then show ?thesis by (intro exI [of _ "Suc k"]) simp
qed

lemma get_inflate_job_calls:
  assumes "get_inflate_job x t p w = (r, w1)"
  shows "\<exists>cs. calls w1 = calls w @ cs \<and> (\<forall>b. Call_Deallocate b \<notin> set cs)
              \<and> (\<forall>sz. Call_Allocate sz \<notin> set cs)"
  using assms by (cases rule: get_inflate_job_cases) auto

lemma get_deflate_job_calls:
  assumes "get_deflate_job x t p w = (r, w1)"
  shows "\<exists>cs. calls w1 = calls w @ cs \<and> (\<forall>b. Call_Deallocate b \<notin> set cs)
              \<and> (\<forall>sz. Call_Allocate sz \<notin> set cs)"
  using assms by (cases rule: get_deflate_job_cases) auto

lemma calls_put_inflate_job [simp]: "calls (put_inflate_job t p j w) = calls w"
  by (simp add: put_inflate_job_def)

lemma calls_put_deflate_job [simp]: "calls (put_deflate_job t p j w) = calls w"
  by (simp add: put_deflate_job_def)

text \<open>
  Claim C9. When \<open>Uncompress\<close> fails after the allocator has returned a buffer (a
  failure to obtain the job, a backend status other than \<open>QPL_STS_OK\<close>, or a size
  mismatch), the pointer handed back in \<open>*output\<close> is the address the allocator
  returned, with a buffer of the allocated size behind it; \<open>*output_length\<close> is not
  assigned; and the calls made after the allocation contain no deallocation.
\<close>

theorem C9_buffer_not_freed:
  assumes "DecodeSize input input_length = Some (input1, len1, n)"
    and "Allocate (env w) (ucast n) (GetMemoryAllocator info) = (Returns (Ptr a dest), e1)"
    and "Uncompress x options t info input input_length out out_length w
         = Some (st, out', len', w')"
    and "st \<noteq> OK"
  shows "(\<exists>mem. out' = Ptr a mem \<and> length mem = length dest)
         \<and> len' = out_length
         \<and> (\<exists>cs. calls w' = calls w @ Call_Allocate (ucast n) # cs
                  \<and> (\<forall>b. Call_Deallocate b \<notin> set cs))"
  using assms(3)
proof (cases rule: Uncompress_cases)
  case framing
  with assms(1) show ?thesis by simp
next
  case (throws input1 len1 n e1)
  with assms(1,2) show ?thesis by simp
next
  case (null input1 len1 n e1)
  with assms(1,2) show ?thesis by simp
next
  case (no_job input1' len1' n' a' dest' e1')
  with assms(1,2) have eq: "n' = n" "a' = a" "dest' = dest" "e1' = e1" by simp_all
  from get_inflate_job_calls [OF no_job(3)] obtain cs where
    "calls w' = calls w @ Call_Allocate (ucast n) # cs" "\<forall>b. Call_Deallocate b \<notin> set cs"
    using eq by auto
  with no_job eq show ?thesis by auto
next
  case (executed input1' len1' n' a' dest' e1' j w1 status j' e' cs')
  with assms(1,2) have eq: "n' = n" "a' = a" "dest' = dest" "e1' = e1" by simp_all
  from get_inflate_job_calls [OF executed(3)] obtain cs where
    cs: "calls w1 = calls w @ Call_Allocate (ucast n) # cs" "\<forall>b. Call_Deallocate b \<notin> set cs"
    using eq by auto
  from execute_while_busy_calls [OF executed(4)] obtain k where
    k: "cs' = calls w1 @ replicate k Call_qpl_execute_job" by auto
  have "calls w' = calls w @ Call_Allocate (ucast n) # (cs @ replicate k Call_qpl_execute_job)"
    using executed(8) cs(1) k by simp
  moreover have "\<forall>b. Call_Deallocate b \<notin> set (cs @ replicate k Call_qpl_execute_job)"
    using cs(2) by auto
  moreover have "len' = out_length" using executed(5,7) assms(4) by (auto split: if_splits)
  moreover have "out' = Ptr a (store dest (next_out_ptr j'))" using executed(6) eq by simp
  ultimately show ?thesis by (auto simp: length_store)
qed

theorem C9_buffer_not_freed_witness:
  "DecodeSize framed_abc 3 = Some ([97, 98, 99], 2, 3)
   \<and> Allocate (env (initial_world (0 :: nat))) (ucast (3 :: u32))
         (GetMemoryAllocator default_info) = (Returns (Ptr 4096 [0, 0, 0]), 0)
   \<and> Corruption ''size mismatch'' \<noteq> OK
   \<and> (\<exists>w'. Uncompress (copy_double 0 0 (\<lambda>n. 0)) default_options 0 default_info framed_abc 3
               garbage 77 (initial_world 0)
             = Some (Corruption ''size mismatch'', Ptr 4096 [97, 98, 0], 77, w')
           \<and> (\<exists>cs. calls w' = calls (initial_world (0 :: nat)) @ Call_Allocate (ucast (3 :: u32)) # cs
                    \<and> (\<forall>b. Call_Deallocate b \<notin> set cs)))
   \<and> DecodeSize framed_abc 4 = Some ([97, 98, 99], 3, 3)
   \<and> Corruption ''QPL status 214'' \<noteq> OK
   \<and> (\<exists>w'. Uncompress (copy_double 0 0 (\<lambda>n. 214)) default_options 0 default_info framed_abc 4
               garbage 77 (initial_world 0)
             = Some (Corruption ''QPL status 214'', Ptr 4096 [0, 0, 0], 77, w')
           \<and> (\<exists>cs. calls w' = calls (initial_world (0 :: nat)) @ Call_Allocate (ucast (3 :: u32)) # cs
                    \<and> (\<forall>b. Call_Deallocate b \<notin> set cs)))"
proof -
  have d3: "DecodeSize framed_abc 3 = Some ([97, 98, 99], 2, 3)" by code_simp
  have al: "Allocate (env (initial_world (0 :: nat))) (ucast (3 :: u32))
              (GetMemoryAllocator default_info) = (Returns (Ptr 4096 [0, 0, 0]), 0)"
    by code_simp
  obtain w1 where
    run1: "Uncompress (copy_double 0 0 (\<lambda>n. 0)) default_options 0 default_info framed_abc 3
               garbage 77 (initial_world 0)
             = Some (Corruption ''size mismatch'', Ptr 4096 [97, 98, 0], 77, w1)"
    using Uncompress_executed [OF d3 al framed_abc_inflate_job copy_double_executes,
        of garbage 77]
    by (simp add: Uncompress_set_job_def store_def)
  have f214: "execute_while_busy (copy_double 0 0 (\<lambda>n. 214))
     (QPL_STS_QUEUES_ARE_BUSY_ERR (copy_double 0 0 (\<lambda>n. 214))) j e cs
   = Some (214, j, Suc e, cs @ [Call_qpl_execute_job])" for j e cs
    by (rule copy_double_fails) simp_all
  obtain w2 where
    run2: "Uncompress (copy_double 0 0 (\<lambda>n. 214)) default_options 0 default_info framed_abc 4
               garbage 77 (initial_world 0)
             = Some (Corruption ''QPL status 214'', Ptr 4096 [0, 0, 0], 77, w2)"
    using Uncompress_executed [OF DecodeSize_framed_abc al framed_abc_inflate_job
        f214, of garbage 77]
    by (simp add: Uncompress_set_job_def store_def QPL_STATUS_def to_string.simps
        digit_char_def copy_double_def)
  have ne1: "Corruption ''size mismatch'' \<noteq> OK" and ne2: "Corruption ''QPL status 214'' \<noteq> OK"
    by simp_all
  note c1 = C9_buffer_not_freed [OF d3 al run1 ne1, THEN conjunct2, THEN conjunct2]
  note c2 = C9_buffer_not_freed [OF DecodeSize_framed_abc al run2 ne2, THEN conjunct2,
      THEN conjunct2]
  have p1: "\<exists>w'. Uncompress (copy_double 0 0 (\<lambda>n. 0)) default_options 0 default_info
               framed_abc 3 garbage 77 (initial_world 0)
             = Some (Corruption ''size mismatch'', Ptr 4096 [97, 98, 0], 77, w')
           \<and> (\<exists>cs. calls w' = calls (initial_world (0 :: nat)) @ Call_Allocate (ucast (3 :: u32)) # cs
                    \<and> (\<forall>b. Call_Deallocate b \<notin> set cs))"
    by (rule exI [of _ w1]) (rule conjI [OF run1 c1])
  have p2: "\<exists>w'. Uncompress (copy_double 0 0 (\<lambda>n. 214)) default_options 0 default_info
               framed_abc 4 garbage 77 (initial_world 0)
             = Some (Corruption ''QPL status 214'', Ptr 4096 [0, 0, 0], 77, w')
           \<and> (\<exists>cs. calls w' = calls (initial_world (0 :: nat)) @ Call_Allocate (ucast (3 :: u32)) # cs
                    \<and> (\<forall>b. Call_Deallocate b \<notin> set cs))"
    by (rule exI [of _ w2]) (rule conjI [OF run2 c2])
  show ?thesis by (intro conjI d3 al ne1 p1 DecodeSize_framed_abc ne2 p2)
qed

section \<open>Statuses of the backend\<close>

lemma digit_char_inj: "a < 10 \<Longrightarrow> b < 10 \<Longrightarrow> digit_char a = digit_char b \<Longrightarrow> a = b"
proof -
  assume "a < 10" "b < 10" "digit_char a = digit_char b"
  have d: "distinct ''0123456789''" by simp
  have "length ''0123456789'' = 10" by simp
  with d \<open>a < 10\<close> \<open>b < 10\<close> \<open>digit_char a = digit_char b\<close> show "a = b"
    unfolding digit_char_def by (metis nth_eq_iff_index_eq)
qed

lemma to_string_nonempty: "to_string n \<noteq> []"
  by (subst to_string.simps) simp

lemma to_string_inj: "to_string n = to_string m \<Longrightarrow> n = m"
proof (induction n arbitrary: m rule: to_string.induct)
  case (1 n)
  show ?case
  proof (cases "n < 10")
    case True
    show ?thesis
    proof (cases "m < 10")
      case m: True
      with True "1.prems" show ?thesis
        by (subst (asm) (1 2) to_string.simps) (simp add: digit_char_inj)
    next
      case False
      with True "1.prems" to_string_nonempty [of "m div 10"] show ?thesis
        by (subst (asm) (1 2) to_string.simps) simp
    qed
  next
    case False
    show ?thesis
    proof (cases "m < 10")
      case True
      with False "1.prems" to_string_nonempty [of "n div 10"] show ?thesis
        by (subst (asm) (1 2) to_string.simps) simp
    next
      case m: False
      with False "1.prems" have "to_string (n div 10) = to_string (m div 10)"
        and "digit_char (n mod 10) = digit_char (m mod 10)"
        by (subst (asm) (1 2) to_string.simps, simp)+
      with "1.IH" [OF False] have "n div 10 = m div 10" "n mod 10 = m mod 10"
        by (auto intro: digit_char_inj)
      then show ?thesis by (metis div_mult_mod_eq)
    qed
  qed
qed

lemma QPL_STATUS_inj: "QPL_STATUS s = QPL_STATUS s' \<Longrightarrow> s = s'"
  by (simp add: QPL_STATUS_def to_string_inj)

lemma Compress_first_non_busy:
  assumes "Compress_prepare input out = (h, cap, out1)"
    and "get_deflate_job x t (execution_path options) w = (Inr j, w1)"
    and "first_non_busy x k (Compress_set_job x options input h cap out1 j) (env w1)"
  shows "\<exists>out' w'. Compress x options t input out w =
           Some (if execute_status x k (Compress_set_job x options input h cap out1 j) (env w1)
                      = QPL_STS_OK x
                 then OK
                 else Corruption (QPL_STATUS
                   (execute_status x k (Compress_set_job x options input h cap out1 j) (env w1))),
                 out', w')
           \<and> calls w' = calls w1 @ replicate (Suc k) Call_qpl_execute_job"
proof -
  let ?cj = "Compress_set_job x options input h cap out1 j"
  from assms(3) have "\<forall>i<k. execute_status x i ?cj (env w1) = QPL_STS_QUEUES_ARE_BUSY_ERR x"
    and "execute_status x k ?cj (env w1) \<noteq> QPL_STS_QUEUES_ARE_BUSY_ERR x"
    by (simp_all add: first_non_busy_def)
  from execute_while_busy_returns [OF this, of "calls w1"]
  have loop: "execute_while_busy x (QPL_STS_QUEUES_ARE_BUSY_ERR x) ?cj (env w1) (calls w1) =
    Some (execute_status x k ?cj (env w1), fst (execute_n x (Suc k) ?cj (env w1)),
          snd (execute_n x (Suc k) ?cj (env w1)),
          calls w1 @ replicate (Suc k) Call_qpl_execute_job)" .
  show ?thesis
    unfolding Compress_executed [OF assms(1,2) loop] by (simp del: replicate_Suc)
qed

lemma Compress_always_busy:
  assumes "Compress_prepare input out = (h, cap, out1)"
    and "get_deflate_job x t (execution_path options) w = (Inr j, w1)"
    and "\<forall>i. execute_status x i (Compress_set_job x options input h cap out1 j) (env w1)
             = QPL_STS_QUEUES_ARE_BUSY_ERR x"
  shows "Compress x options t input out w = None"
  using Compress_never_returns [OF assms(1,2) execute_while_busy_forever [OF assms(3)]] .

lemma Uncompress_first_non_busy:
  assumes "DecodeSize input input_length = Some (input1, len1, n)"
    and "Allocate (env w) (ucast n) (GetMemoryAllocator info) = (Returns (Ptr a dest), e1)"
    and "get_inflate_job x t (execution_path options)
           (w\<lparr>env := e1, calls := calls w @ [Call_Allocate (ucast n)]\<rparr>) = (Inr j, w1)"
    and "first_non_busy x k (Uncompress_set_job input1 len1 dest n j) (env w1)"
  shows "\<exists>st out' len' w'.
           Uncompress x options t info input input_length out out_length w
             = Some (st, out', len', w')
           \<and> (execute_status x k (Uncompress_set_job input1 len1 dest n j) (env w1)
                  \<noteq> QPL_STS_OK x
                \<longrightarrow> st = Corruption (QPL_STATUS
                     (execute_status x k (Uncompress_set_job input1 len1 dest n j) (env w1))))
           \<and> (execute_status x k (Uncompress_set_job input1 len1 dest n j) (env w1)
                  = QPL_STS_OK x
                \<longrightarrow> st = OK \<or> st = Corruption ''size mismatch'')
           \<and> calls w' = calls w1 @ replicate (Suc k) Call_qpl_execute_job"
proof -
  let ?uj = "Uncompress_set_job input1 len1 dest n j"
  from assms(4) have "\<forall>i<k. execute_status x i ?uj (env w1) = QPL_STS_QUEUES_ARE_BUSY_ERR x"
    and "execute_status x k ?uj (env w1) \<noteq> QPL_STS_QUEUES_ARE_BUSY_ERR x"
    by (simp_all add: first_non_busy_def)
  from execute_while_busy_returns [OF this, of "calls w1"]
  have loop: "execute_while_busy x (QPL_STS_QUEUES_ARE_BUSY_ERR x) ?uj (env w1) (calls w1) =
    Some (execute_status x k ?uj (env w1), fst (execute_n x (Suc k) ?uj (env w1)),
          snd (execute_n x (Suc k) ?uj (env w1)),
          calls w1 @ replicate (Suc k) Call_qpl_execute_job)" .
  show ?thesis
    unfolding Uncompress_executed [OF assms(1,2,3) loop] by (simp del: replicate_Suc)
qed

lemma Uncompress_always_busy:
  assumes "DecodeSize input input_length = Some (input1, len1, n)"
    and "Allocate (env w) (ucast n) (GetMemoryAllocator info) = (Returns (Ptr a dest), e1)"
    and "get_inflate_job x t (execution_path options)
           (w\<lparr>env := e1, calls := calls w @ [Call_Allocate (ucast n)]\<rparr>) = (Inr j, w1)"
    and "\<forall>i. execute_status x i (Uncompress_set_job input1 len1 dest n j) (env w1)
             = QPL_STS_QUEUES_ARE_BUSY_ERR x"
  shows "Uncompress x options t info input input_length out out_length w = None"
  using Uncompress_never_returns [OF assms(1,2,3) execute_while_busy_forever [OF assms(4)]] .


lemma size_mismatch_is_not_a_status: "''size mismatch'' \<noteq> QPL_STATUS s"
  by (simp add: QPL_STATUS_def)

text \<open>
  Claim C3. Take a call of \<open>Compress\<close>, and one of \<open>Uncompress\<close>, that has obtained its
  job; \<open>cj\<close> and \<open>uj\<close> are the jobs as configured for execution. Whatever statuses the
  backend answers to the repeated \<open>qpl_execute_job\<close>:
  \<^item> if its answer number \<open>k\<close> is the first that is not busy, the call returns after
    exactly \<open>k + 1\<close> executions, and what it returns is decided by that answer alone:
    \<open>Compress\<close> returns \<open>OK\<close> for \<open>QPL_STS_OK\<close> and \<open>Corruption("QPL status <code>")\<close>
    with the code of any other status; \<open>Uncompress\<close> returns that same \<open>Corruption\<close>
    for any other status, and \<open>OK\<close> or the size mismatch for \<open>QPL_STS_OK\<close>;
  \<^item> the returned status is never the \<open>Corruption\<close> of the busy code (the decimal
    rendering of a code determines the code);
  \<^item> if every answer is busy, the call never returns.
\<close>

theorem C3_busy_is_retried:
  assumes "Compress_prepare input out = (h, cap, out1)"
    and "get_deflate_job x t (execution_path options) w = (Inr j, w1)"
    and "cj = Compress_set_job x options input h cap out1 j"
    and "DecodeSize uinput input_length = Some (input1, len1, n)"
    and "Allocate (env v) (ucast n) (GetMemoryAllocator info) = (Returns (Ptr a dest), e1)"
    and "get_inflate_job x t (execution_path options)
           (v\<lparr>env := e1, calls := calls v @ [Call_Allocate (ucast n)]\<rparr>) = (Inr i, v1)"
    and "uj = Uncompress_set_job input1 len1 dest n i"
  shows "(\<forall>k. first_non_busy x k cj (env w1) \<longrightarrow>
            (\<exists>st out' w'. Compress x options t input out w = Some (st, out', w')
               \<and> st = (if execute_status x k cj (env w1) = QPL_STS_OK x then OK
                       else Corruption (QPL_STATUS (execute_status x k cj (env w1))))
               \<and> st \<noteq> Corruption (QPL_STATUS (QPL_STS_QUEUES_ARE_BUSY_ERR x))
               \<and> calls w' = calls w1 @ replicate (Suc k) Call_qpl_execute_job))
         \<and> ((\<forall>k. execute_status x k cj (env w1) = QPL_STS_QUEUES_ARE_BUSY_ERR x) \<longrightarrow>
              Compress x options t input out w = None)
         \<and> (\<forall>k. first_non_busy x k uj (env v1) \<longrightarrow>
            (\<exists>st out' len' w'.
               Uncompress x options t info uinput input_length uout uout_length v
                 = Some (st, out', len', w')
               \<and> (execute_status x k uj (env v1) \<noteq> QPL_STS_OK x \<longrightarrow>
                    st = Corruption (QPL_STATUS (execute_status x k uj (env v1))))
               \<and> (execute_status x k uj (env v1) = QPL_STS_OK x \<longrightarrow>
                    st = OK \<or> st = Corruption ''size mismatch'')
               \<and> st \<noteq> Corruption (QPL_STATUS (QPL_STS_QUEUES_ARE_BUSY_ERR x))
               \<and> calls w' = calls v1 @ replicate (Suc k) Call_qpl_execute_job))
         \<and> ((\<forall>k. execute_status x k uj (env v1) = QPL_STS_QUEUES_ARE_BUSY_ERR x) \<longrightarrow>
              Uncompress x options t info uinput input_length uout uout_length v = None)"
proof (intro conjI allI impI)
  fix k assume fnb: "first_non_busy x k cj (env w1)"
  then have nb: "execute_status x k cj (env w1) \<noteq> QPL_STS_QUEUES_ARE_BUSY_ERR x"
    by (simp add: first_non_busy_def)
  from Compress_first_non_busy [OF assms(1,2) fnb [unfolded assms(3)]]
  obtain out' w' where
    "Compress x options t input out w =
       Some (if execute_status x k cj (env w1) = QPL_STS_OK x then OK
             else Corruption (QPL_STATUS (execute_status x k cj (env w1))), out', w')"
    "calls w' = calls w1 @ replicate (Suc k) Call_qpl_execute_job"
    unfolding assms(3) by blast
  moreover have "(if execute_status x k cj (env w1) = QPL_STS_OK x then OK
             else Corruption (QPL_STATUS (execute_status x k cj (env w1))))
            \<noteq> Corruption (QPL_STATUS (QPL_STS_QUEUES_ARE_BUSY_ERR x))"
    using nb by (auto dest: QPL_STATUS_inj)
  ultimately show "\<exists>st out' w'. Compress x options t input out w = Some (st, out', w')
               \<and> st = (if execute_status x k cj (env w1) = QPL_STS_OK x then OK
                       else Corruption (QPL_STATUS (execute_status x k cj (env w1))))
               \<and> st \<noteq> Corruption (QPL_STATUS (QPL_STS_QUEUES_ARE_BUSY_ERR x))
               \<and> calls w' = calls w1 @ replicate (Suc k) Call_qpl_execute_job"
    by blast
next
  assume "\<forall>k. execute_status x k cj (env w1) = QPL_STS_QUEUES_ARE_BUSY_ERR x"
  then show "Compress x options t input out w = None"
    unfolding assms(3) by (rule Compress_always_busy [OF assms(1,2)])
next
  fix k assume fnb: "first_non_busy x k uj (env v1)"
  then have nb: "execute_status x k uj (env v1) \<noteq> QPL_STS_QUEUES_ARE_BUSY_ERR x"
    by (simp add: first_non_busy_def)
  from Uncompress_first_non_busy [OF assms(4,5,6) fnb [unfolded assms(7)], of uout uout_length]
  obtain st out' len' w' where r:
    "Uncompress x options t info uinput input_length uout uout_length v
       = Some (st, out', len', w')"
    "execute_status x k uj (env v1) \<noteq> QPL_STS_OK x \<longrightarrow>
       st = Corruption (QPL_STATUS (execute_status x k uj (env v1)))"
    "execute_status x k uj (env v1) = QPL_STS_OK x \<longrightarrow>
       st = OK \<or> st = Corruption ''size mismatch''"
    "calls w' = calls v1 @ replicate (Suc k) Call_qpl_execute_job"
    unfolding assms(7) by blast
  have "st \<noteq> Corruption (QPL_STATUS (QPL_STS_QUEUES_ARE_BUSY_ERR x))"
    using r(2,3) nb size_mismatch_is_not_a_status [of "QPL_STS_QUEUES_ARE_BUSY_ERR x"]
    by (cases "execute_status x k uj (env v1) = QPL_STS_OK x")
       (auto dest: QPL_STATUS_inj simp del: QPL_STATUS_def)
  with r show "\<exists>st out' len' w'.
               Uncompress x options t info uinput input_length uout uout_length v
                 = Some (st, out', len', w')
               \<and> (execute_status x k uj (env v1) \<noteq> QPL_STS_OK x \<longrightarrow>
                    st = Corruption (QPL_STATUS (execute_status x k uj (env v1))))
               \<and> (execute_status x k uj (env v1) = QPL_STS_OK x \<longrightarrow>
                    st = OK \<or> st = Corruption ''size mismatch'')
               \<and> st \<noteq> Corruption (QPL_STATUS (QPL_STS_QUEUES_ARE_BUSY_ERR x))
               \<and> calls w' = calls v1 @ replicate (Suc k) Call_qpl_execute_job"
    by blast
next
  assume "\<forall>k. execute_status x k uj (env v1) = QPL_STS_QUEUES_ARE_BUSY_ERR x"
  then show "Uncompress x options t info uinput input_length uout uout_length v = None"
    unfolding assms(7) by (rule Uncompress_always_busy [OF assms(4,5,6)])
qed

lemma copy_double_fields [simp]:
  "QPL_STS_OK (copy_double a b f) = 0"
  "QPL_STS_QUEUES_ARE_BUSY_ERR (copy_double a b f) = 5"
  by (simp_all add: copy_double_def)

lemma execute_n_copy_double: "snd (execute_n (copy_double a b f) i j e) = e + i"
  by (induction i arbitrary: j e) (simp_all add: copy_double_def)

lemma execute_status_copy_double: "execute_status (copy_double a b f) i j e = f (e + i)"
proof -
  obtain j' e' where n: "execute_n (copy_double a b f) i j e = (j', e')" by (metis prod.exhaust)
  with execute_n_copy_double [of a b f i j e] have "e' = e + i" by simp
  with n show ?thesis by (simp add: execute_status_def copy_double_def)
qed

lemma first_non_busy_twice:
  "s \<noteq> 5 \<Longrightarrow> first_non_busy (copy_double a b (busy_twice_then s)) 2 j 0"
  by (simp add: first_non_busy_def execute_status_copy_double busy_twice_then_def)

lemma always_busy_double:
  "\<forall>k. execute_status (copy_double a b (\<lambda>n. 5)) k j e
        = QPL_STS_QUEUES_ARE_BUSY_ERR (copy_double a b (\<lambda>n. 5))"
  by (simp add: execute_status_copy_double)

lemma abc_prepare: "Compress_prepare abc [] = (1, 9, [3, 0, 0, 0, 0, 0, 0, 0, 0])"
  by code_simp

lemma abc_deflate_job:
  "get_deflate_job (copy_double 0 0 exec_status) 0 (execution_path default_options)
     (initial_world 0)
   = (Inr blank_job,
      \<lparr>deflate_job_cache = (\<lambda>t p. None)
         (0 := (\<lambda>p. None)(qpl_path_auto \<mapsto> \<lparr>job = blank_job, initialized = True\<rparr>)),
       inflate_job_cache = (\<lambda>t p. None),
       env = 0,
       calls = [Call_qpl_get_job_size qpl_path_auto, Call_make_unique 4096,
                Call_qpl_init_job qpl_path_auto]\<rparr>)"
  by (simp add: get_deflate_job_def copy_double_def initial_world_def default_options_def)

lemma buffer_for_abc:
  "Allocate (env (initial_world (0 :: nat))) (ucast (3 :: u32))
     (GetMemoryAllocator default_info) = (Returns (Ptr 4096 [0, 0, 0]), 0)"
  by code_simp

theorem C3_busy_is_retried_witness:
  "first_non_busy (copy_double 0 0 (busy_twice_then 50)) 2
     (Compress_set_job (copy_double 0 0 (busy_twice_then 50)) default_options abc 1 9
        [3, 0, 0, 0, 0, 0, 0, 0, 0] blank_job) 0
   \<and> (\<exists>out' w'. Compress (copy_double 0 0 (busy_twice_then 50)) default_options 0 abc []
                   (initial_world 0)
                 = Some (Corruption ''QPL status 50'', out', w')
          \<and> calls w' = [Call_qpl_get_job_size qpl_path_auto, Call_make_unique 4096,
                         Call_qpl_init_job qpl_path_auto, Call_qpl_execute_job,
                         Call_qpl_execute_job, Call_qpl_execute_job])
   \<and> first_non_busy (copy_double 0 0 (busy_twice_then 50)) 2
       (Uncompress_set_job [97, 98, 99] 3 [0, 0, 0] 3 blank_job) 0
   \<and> (\<exists>out' len' w'. Uncompress (copy_double 0 0 (busy_twice_then 50)) default_options 0
                        default_info framed_abc 4 garbage 77 (initial_world 0)
                      = Some (Corruption ''QPL status 50'', out', len', w')
          \<and> calls w' = [Call_Allocate 3, Call_qpl_get_job_size qpl_path_auto,
                         Call_make_unique 4096, Call_qpl_init_job qpl_path_auto,
                         Call_qpl_execute_job, Call_qpl_execute_job, Call_qpl_execute_job])
   \<and> Compress (copy_double 0 0 (\<lambda>n. 5)) default_options 0 abc [] (initial_world 0) = None
   \<and> Uncompress (copy_double 0 0 (\<lambda>n. 5)) default_options 0 default_info framed_abc 4
         garbage 77 (initial_world 0) = None"
proof -
  let ?A = "copy_double 0 0 (busy_twice_then 50)"
  let ?B = "copy_double 0 0 (\<lambda>n. 5)"
  let ?cjA = "Compress_set_job ?A default_options abc 1 9 [3, 0, 0, 0, 0, 0, 0, 0, 0] blank_job"
  let ?cjB = "Compress_set_job ?B default_options abc 1 9 [3, 0, 0, 0, 0, 0, 0, 0, 0] blank_job"
  let ?uj = "Uncompress_set_job [97, 98, 99] 3 [0, 0, 0] 3 blank_job"
  note A = C3_busy_is_retried [OF abc_prepare abc_deflate_job [of "busy_twice_then 50"] refl
      DecodeSize_framed_abc buffer_for_abc framed_abc_inflate_job [of "busy_twice_then 50"] refl,
      where uout = garbage and uout_length = 77]
  note B = C3_busy_is_retried [OF abc_prepare abc_deflate_job [of "\<lambda>n. 5"] refl
      DecodeSize_framed_abc buffer_for_abc framed_abc_inflate_job [of "\<lambda>n. 5"] refl,
      where uout = garbage and uout_length = 77]
  have f1: "first_non_busy ?A 2 ?cjA 0" and f2: "first_non_busy ?A 2 ?uj 0"
    by (rule first_non_busy_twice, simp)+
  have sA: "execute_status ?A 2 j 0 = 50" for j
    by (simp add: execute_status_copy_double busy_twice_then_def)
  have r3: "replicate 3 c = [c, c, c]" for c :: call
    by (simp add: numeral_3_eq_3)
  have q: "QPL_STATUS 50 = ''QPL status 50''"
    by (simp add: QPL_STATUS_def to_string.simps digit_char_def)
  have c1: "\<exists>out' w'. Compress ?A default_options 0 abc [] (initial_world 0)
                 = Some (Corruption ''QPL status 50'', out', w')
          \<and> calls w' = [Call_qpl_get_job_size qpl_path_auto, Call_make_unique 4096,
                         Call_qpl_init_job qpl_path_auto, Call_qpl_execute_job,
                         Call_qpl_execute_job, Call_qpl_execute_job]"
    using A [THEN conjunct1, rule_format, of 2] f1
    by (simp add: sA q r3) blast
  have c2: "\<exists>out' len' w'. Uncompress ?A default_options 0 default_info framed_abc 4 garbage 77
                        (initial_world 0)
                      = Some (Corruption ''QPL status 50'', out', len', w')
          \<and> calls w' = [Call_Allocate 3, Call_qpl_get_job_size qpl_path_auto,
                         Call_make_unique 4096, Call_qpl_init_job qpl_path_auto,
                         Call_qpl_execute_job, Call_qpl_execute_job, Call_qpl_execute_job]"
    using A [THEN conjunct2, THEN conjunct2, THEN conjunct1, rule_format, of 2] f2
    by (simp add: sA q r3) blast
  have c3: "Compress ?B default_options 0 abc [] (initial_world 0) = None"
    using B [THEN conjunct2, THEN conjunct1] always_busy_double [of 0 0 ?cjB 0] by simp
  have c4: "Uncompress ?B default_options 0 default_info framed_abc 4 garbage 77
              (initial_world 0) = None"
    using B [THEN conjunct2, THEN conjunct2, THEN conjunct2] always_busy_double [of 0 0 ?uj 0]
    by simp
  show ?thesis by (intro conjI f1 c1 f2 c2 c3 c4)
qed

section \<open>The capacity of the output buffer in \<open>Compress\<close>\<close>

lemma Compress_with_job:
  assumes "Compress_prepare input out = (h, cap, out1)"
    and "get_deflate_job x t (execution_path options) w = (Inr j, w1)"
  shows "Compress x options t input out w =
     (case execute_while_busy x (QPL_STS_QUEUES_ARE_BUSY_ERR x)
             (Compress_set_job x options input h cap out1 j) (env w1) (calls w1) of
        None \<Rightarrow> None
      | Some (status, j', e', cs') \<Rightarrow>
          Some (if status \<noteq> QPL_STS_OK x then Corruption (QPL_STATUS status) else OK,
                if status \<noteq> QPL_STS_OK x
                then take (unat h) out1 @ store (drop (unat h) out1) (next_out_ptr j')
                else resize (unat (h + total_out j'))
                       (take (unat h) out1 @ store (drop (unat h) out1) (next_out_ptr j')),
                put_deflate_job t (execution_path options) j' (w1\<lparr>env := e', calls := cs'\<rparr>)))"
  by (simp add: Compress_def assms Let_def split: option.splits)

lemma Compress_set_job_fields:
  "next_in_ptr (Compress_set_job x options input h cap out1 j) = slice_data input"
  "available_in (Compress_set_job x options input h cap out1 j) = ucast (slice_size input)"
  "next_out_ptr (Compress_set_job x options input h cap out1 j) = drop (unat h) out1"
  "available_out (Compress_set_job x options input h cap out1 j) = ucast (cap - ucast h)"
  "op (Compress_set_job x options input h cap out1 j) = qpl_op_compress"
  by (simp_all add: Compress_set_job_def Let_def)

lemma unat_available_out:
  fixes cap :: size_t and h :: u32
  assumes "unat h \<le> unat cap" and "unat cap < 2 ^ 32"
  shows "unat (ucast (cap - ucast h) :: u32) = unat cap - unat h"
proof -
  have le: "(ucast h :: size_t) \<le> cap"
    using assms(1) by (simp add: word_le_nat_alt unat_ucast_u32_size_t)
  have "unat (cap - ucast h) = unat cap - unat h"
    using le by (simp add: unat_sub unat_ucast_u32_size_t)
  moreover have "unat cap - unat h < 2 ^ 32" using assms(2) by simp
  ultimately show ?thesis
    by (simp add: unsigned_ucast_eq take_bit_nat_eq_self)
qed

lemma Compress_prepare_capacity:
  assumes "unat (slice_size input) < 2 ^ 63"
    and "EncodeSize (slice_size input) output = (h, framed)"
    and "cap = min (unat h + unat (slice_size input)
                      + 5 * ceil_div (unat (slice_size input)) 65535) (2 ^ 32 - 1)"
  shows "Compress_prepare input output = (h, of_nat cap, resize cap framed)"
    and "unat (of_nat cap :: size_t) = cap" and "unat h \<le> cap" and "cap < 2 ^ 32"
    and "framed = output @ EncodeVarint32 (ucast (slice_size input))"
proof -
  have c: "unat (Compress_output_length h (slice_size input)) = cap"
    using unat_Compress_output_length [OF assms(1), of h] assms(3) by simp
  then have oc: "of_nat cap = Compress_output_length h (slice_size input)" by auto
  show "Compress_prepare input output = (h, of_nat cap, resize cap framed)"
    using assms(2) c oc by (simp add: Compress_prepare_def Let_def)
  show "unat (of_nat cap :: size_t) = cap" using c oc by simp
  show "cap < 2 ^ 32" using assms(3) by simp
  show "unat h \<le> cap" using assms(3) unat_u32_bound [of h] by simp
  show "framed = output @ EncodeVarint32 (ucast (slice_size input))"
    using assms(2) by (auto simp: EncodeSize_def PutVarint32_def Let_def)
qed

text \<open>
  Claim C2. Take an input block of length \<open>n\<close> (below \<open>2^63\<close>, as every object in memory
  is), \<open>h\<close> the header length that \<open>EncodeSize\<close> returned, and \<open>cap\<close> the smaller of
  \<open>h + n + 5 * ceil(n / 65535)\<close> and \<open>2^32 - 1\<close>. \<open>Compress\<close> resizes the output string to
  exactly \<open>cap\<close> bytes before it obtains and executes the job: if no job is obtained, the
  string of \<open>cap\<close> bytes comes back with the error of the acquisition; if a job is obtained,
  the job that is executed has the \<open>cap - h\<close> bytes behind the header as its destination and
  \<open>cap - h\<close> as \<open>available_out\<close>, and what \<open>Compress\<close> returns is decided by the status
  of the backend alone. So a clamped capacity is no error case of its own; when it is too
  small, that is an error of the backend. On an empty output string \<open>h\<close> is the length of
  the varint.
\<close>

theorem C2_output_capacity:
  assumes "unat (slice_size input) < 2 ^ 63"
    and "EncodeSize (slice_size input) output = (h, framed)"
    and "cap = min (unat h + unat (slice_size input)
                      + 5 * ceil_div (unat (slice_size input)) 65535) (2 ^ 32 - 1)"
  shows "framed = output @ EncodeVarint32 (ucast (slice_size input))
         \<and> (output = [] \<longrightarrow> unat h = length (EncodeVarint32 (ucast (slice_size input))))
         \<and> length (resize cap framed) = cap
         \<and> unat h \<le> cap
         \<and> (\<forall>s w1. get_deflate_job x t (execution_path options) w = (Inl s, w1) \<longrightarrow>
               Compress x options t input output w = Some (s, resize cap framed, w1))
         \<and> (\<forall>j w1. get_deflate_job x t (execution_path options) w = (Inr j, w1) \<longrightarrow>
               (\<exists>cj. cj = Compress_set_job x options input h (of_nat cap) (resize cap framed) j
                  \<and> next_out_ptr cj = drop (unat h) (resize cap framed)
                  \<and> length (next_out_ptr cj) = cap - unat h
                  \<and> unat (available_out cj) = cap - unat h
                  \<and> next_in_ptr cj = slice_data input
                  \<and> available_in cj = ucast (slice_size input)
                  \<and> Compress x options t input output w =
                      (case execute_while_busy x (QPL_STS_QUEUES_ARE_BUSY_ERR x) cj
                              (env w1) (calls w1) of
                         None \<Rightarrow> None
                       | Some (status, j', e', cs') \<Rightarrow>
                           Some (if status \<noteq> QPL_STS_OK x
                                 then Corruption (QPL_STATUS status) else OK,
                                 if status \<noteq> QPL_STS_OK x
                                 then take (unat h) (resize cap framed)
                                      @ store (drop (unat h) (resize cap framed)) (next_out_ptr j')
                                 else resize (unat (h + total_out j'))
                                        (take (unat h) (resize cap framed)
                                         @ store (drop (unat h) (resize cap framed))
                                             (next_out_ptr j')),
                                 put_deflate_job t (execution_path options) j'
                                   (w1\<lparr>env := e', calls := cs'\<rparr>)))))"
proof -
  note prep = Compress_prepare_capacity [OF assms]
  let ?enc = "EncodeVarint32 (ucast (slice_size input))"
  have fr: "framed = output @ ?enc" by (rule prep(5))
  have hd: "output = [] \<longrightarrow> unat h = length ?enc"
  proof
    assume "output = []"
    moreover have "length ?enc \<le> 5"
      using EncodeVarint32_length [of "ucast (slice_size input)"] by simp
    moreover have "h = of_nat (length framed)"
      using assms(2) by (auto simp: EncodeSize_def PutVarint32_def Let_def)
    ultimately show "unat h = length ?enc" using fr by (simp add: unat_of_nat)
  qed
  have len: "length (resize cap framed) = cap" by (rule length_resize)
  have nojob: "Compress x options t input output w = Some (s, resize cap framed, w1)"
    if "get_deflate_job x t (execution_path options) w = (Inl s, w1)" for s w1
    using Compress_no_job [OF prep(1) that] .
  have job: "\<exists>cj. cj = Compress_set_job x options input h (of_nat cap) (resize cap framed) j
                  \<and> next_out_ptr cj = drop (unat h) (resize cap framed)
                  \<and> length (next_out_ptr cj) = cap - unat h
                  \<and> unat (available_out cj) = cap - unat h
                  \<and> next_in_ptr cj = slice_data input
                  \<and> available_in cj = ucast (slice_size input)
                  \<and> Compress x options t input output w =
                      (case execute_while_busy x (QPL_STS_QUEUES_ARE_BUSY_ERR x) cj
                              (env w1) (calls w1) of
                         None \<Rightarrow> None
                       | Some (status, j', e', cs') \<Rightarrow>
                           Some (if status \<noteq> QPL_STS_OK x
                                 then Corruption (QPL_STATUS status) else OK,
                                 if status \<noteq> QPL_STS_OK x
                                 then take (unat h) (resize cap framed)
                                      @ store (drop (unat h) (resize cap framed)) (next_out_ptr j')
                                 else resize (unat (h + total_out j'))
                                        (take (unat h) (resize cap framed)
                                         @ store (drop (unat h) (resize cap framed))
                                             (next_out_ptr j')),
                                 put_deflate_job t (execution_path options) j'
                                   (w1\<lparr>env := e', calls := cs'\<rparr>)))"
    if g: "get_deflate_job x t (execution_path options) w = (Inr j, w1)" for j w1
  proof -
    let ?cj = "Compress_set_job x options input h (of_nat cap) (resize cap framed) j"
    have a: "next_out_ptr ?cj = drop (unat h) (resize cap framed)"
      by (rule Compress_set_job_fields)
    have b: "length (next_out_ptr ?cj) = cap - unat h"
      unfolding a by (simp add: len)
    have c: "unat (available_out ?cj) = cap - unat h"
      using unat_available_out [of h "of_nat cap"] prep(2,3,4)
      by (simp add: Compress_set_job_fields)
    have d: "next_in_ptr ?cj = slice_data input" by (rule Compress_set_job_fields)
    have e: "available_in ?cj = ucast (slice_size input)" by (rule Compress_set_job_fields)
    note f = Compress_with_job [OF prep(1) g]
    show ?thesis by (rule exI [of _ ?cj]) (intro conjI refl a b c d e f)
  qed
  from nojob have nojob': "\<forall>s w1. get_deflate_job x t (execution_path options) w = (Inl s, w1) \<longrightarrow>
               Compress x options t input output w = Some (s, resize cap framed, w1)"
    by (intro allI impI)
  show ?thesis
    by (intro conjI fr hd len prep(3) nojob') (intro allI impI, rule job)
qed

lemma capacity_probe_fields:
  "QPL_STS_OK capacity_probe = 0"
  "QPL_STS_QUEUES_ARE_BUSY_ERR capacity_probe = 5"
  by (simp_all add: capacity_probe_def copy_double_def)

lemma capacity_probe_executes:
  "unat (available_out j) \<noteq> 5 \<Longrightarrow>
   execute_while_busy capacity_probe (QPL_STS_QUEUES_ARE_BUSY_ERR capacity_probe) j e cs
   = Some (unat (available_out j), j, Suc e, cs @ [Call_qpl_execute_job])"
  by (simp add: execute_while_busy.simps capacity_probe_def copy_double_def)

lemma capacity_probe_deflate_job:
  "\<exists>w1. get_deflate_job capacity_probe 0 (execution_path default_options) (initial_world 0)
        = (Inr blank_job, w1)"
  by (simp add: get_deflate_job_def capacity_probe_def copy_double_def initial_world_def
      default_options_def)

lemma EncodeSize_big: "EncodeSize (slice_size big) [] = (2, [172, 2])"
proof -
  have n: "(4294967596 :: u32) = 300" by simp
  have e: "EncodeVarint32 4294967596 = [172, 2]"
    unfolding n by (simp add: EncodeVarint32.simps)
  show ?thesis by (simp add: EncodeSize_def PutVarint32_def big_def e)
qed

lemma QPL_STATUS_8: "QPL_STATUS 8 = ''QPL status 8''"
  by code_simp

lemma QPL_STATUS_4294967293: "QPL_STATUS 4294967293 = ''QPL status 4294967293''"
  by (simp add: QPL_STATUS_def to_string.simps digit_char_def)

theorem C2_output_capacity_witness:
  "unat (slice_size abc) < 2 ^ 63
   \<and> EncodeSize (slice_size abc) [] = (1, [3])
   \<and> (9 :: nat) = min (unat (1 :: u32) + unat (slice_size abc)
                         + 5 * ceil_div (unat (slice_size abc)) 65535) (2 ^ 32 - 1)
   \<and> (\<exists>w'. Compress capacity_probe default_options 0 abc [] (initial_world 0)
            = Some (Corruption ''QPL status 8'', [3, 0, 0, 0, 0, 0, 0, 0, 0], w'))
   \<and> unat (slice_size big) < 2 ^ 63
   \<and> EncodeSize (slice_size big) [] = (2, [172, 2])
   \<and> (4294967295 :: nat) = min (unat (2 :: u32) + unat (slice_size big)
                         + 5 * ceil_div (unat (slice_size big)) 65535) (2 ^ 32 - 1)
   \<and> (\<exists>out' w'. Compress capacity_probe default_options 0 big [] (initial_world 0)
            = Some (Corruption ''QPL status 4294967293'', out', w')
          \<and> length out' = 4294967295)"
proof -
  obtain w1 where g: "get_deflate_job capacity_probe 0 (execution_path default_options)
        (initial_world 0) = (Inr blank_job, w1)"
    using capacity_probe_deflate_job by blast
  \<comment> \<open>a block of three bytes\<close>
  have s1: "unat (slice_size abc) < 2 ^ 63" by (simp add: abc_def)
  have e1: "EncodeSize (slice_size abc) [] = (1, [3])" by code_simp
  have c1: "(9 :: nat) = min (unat (1 :: u32) + unat (slice_size abc)
                         + 5 * ceil_div (unat (slice_size abc)) 65535) (2 ^ 32 - 1)"
    by (simp add: abc_def ceil_div_def)
  from C2_output_capacity [OF s1 e1 c1, THEN conjunct2, THEN conjunct2, THEN conjunct2,
      THEN conjunct2, THEN conjunct2, rule_format, OF g]
  obtain cj where a1: "unat (available_out cj) = 9 - unat (1 :: u32)"
    and n1: "next_out_ptr cj = drop (unat (1 :: u32)) (resize 9 [3])"
    and r1: "Compress capacity_probe default_options 0 abc [] (initial_world 0) =
       (case execute_while_busy capacity_probe (QPL_STS_QUEUES_ARE_BUSY_ERR capacity_probe) cj
               (env w1) (calls w1) of
          None \<Rightarrow> None
        | Some (status, j', e', cs') \<Rightarrow>
            Some (if status \<noteq> QPL_STS_OK capacity_probe
                  then Corruption (QPL_STATUS status) else OK,
                  if status \<noteq> QPL_STS_OK capacity_probe
                  then take (unat (1 :: u32)) (resize 9 [3])
                       @ store (drop (unat (1 :: u32)) (resize 9 [3])) (next_out_ptr j')
                  else resize (unat (1 + total_out j'))
                         (take (unat (1 :: u32)) (resize 9 [3])
                          @ store (drop (unat (1 :: u32)) (resize 9 [3])) (next_out_ptr j')),
                  put_deflate_job 0 (execution_path default_options) j'
                    (w1\<lparr>env := e', calls := cs'\<rparr>)))"
    by blast
  have a1': "unat (available_out cj) = 8" using a1 by simp
  have x1: "execute_while_busy capacity_probe (QPL_STS_QUEUES_ARE_BUSY_ERR capacity_probe) cj
               (env w1) (calls w1)
            = Some (8, cj, Suc (env w1), calls w1 @ [Call_qpl_execute_job])"
    using capacity_probe_executes [of cj "env w1" "calls w1"] a1' by simp
  have n1': "next_out_ptr cj = drop (Suc 0) (resize 9 [3])" using n1 by simp
  have o1: "take (Suc 0) (resize 9 [3]) @ store (drop (Suc 0) (resize 9 [3])) (next_out_ptr cj)
            = [3, 0, 0, 0, 0, 0, 0, 0, 0]"
    unfolding n1' by code_simp
  have abc_run: "\<exists>w'. Compress capacity_probe default_options 0 abc [] (initial_world 0)
            = Some (Corruption ''QPL status 8'', [3, 0, 0, 0, 0, 0, 0, 0, 0], w')"
    unfolding r1 x1 by (simp add: capacity_probe_fields QPL_STATUS_8 o1)
  \<comment> \<open>a block of \<open>2^32 + 300\<close> bytes\<close>
  have s2: "unat (slice_size big) < 2 ^ 63" by (simp add: big_def)
  have c2: "(4294967295 :: nat) = min (unat (2 :: u32) + unat (slice_size big)
                         + 5 * ceil_div (unat (slice_size big)) 65535) (2 ^ 32 - 1)"
    by (simp add: big_def ceil_div_def)
  from C2_output_capacity [OF s2 EncodeSize_big c2, THEN conjunct2, THEN conjunct2,
      THEN conjunct2, THEN conjunct2, THEN conjunct2, rule_format, OF g]
  obtain bj where a2: "unat (available_out bj) = 4294967295 - unat (2 :: u32)"
    and r2: "Compress capacity_probe default_options 0 big [] (initial_world 0) =
       (case execute_while_busy capacity_probe (QPL_STS_QUEUES_ARE_BUSY_ERR capacity_probe) bj
               (env w1) (calls w1) of
          None \<Rightarrow> None
        | Some (status, j', e', cs') \<Rightarrow>
            Some (if status \<noteq> QPL_STS_OK capacity_probe
                  then Corruption (QPL_STATUS status) else OK,
                  if status \<noteq> QPL_STS_OK capacity_probe
                  then take (unat (2 :: u32)) (resize 4294967295 [172, 2])
                       @ store (drop (unat (2 :: u32)) (resize 4294967295 [172, 2]))
                           (next_out_ptr j')
                  else resize (unat (2 + total_out j'))
                         (take (unat (2 :: u32)) (resize 4294967295 [172, 2])
                          @ store (drop (unat (2 :: u32)) (resize 4294967295 [172, 2]))
                              (next_out_ptr j')),
                  put_deflate_job 0 (execution_path default_options) j'
                    (w1\<lparr>env := e', calls := cs'\<rparr>)))"
    by blast
  have a2': "unat (available_out bj) = 4294967293" using a2 by simp
  have x2: "execute_while_busy capacity_probe (QPL_STS_QUEUES_ARE_BUSY_ERR capacity_probe) bj
               (env w1) (calls w1)
            = Some (4294967293, bj, Suc (env w1), calls w1 @ [Call_qpl_execute_job])"
    using capacity_probe_executes [of bj "env w1" "calls w1"] a2' by simp
  have o2: "length (take (unat (2 :: u32)) (resize 4294967295 [172, 2])
              @ store (drop (unat (2 :: u32)) (resize 4294967295 [172, 2])) (next_out_ptr bj))
            = 4294967295"
    by (simp only: length_written_back length_resize)
  have big_run: "\<exists>out' w'. Compress capacity_probe default_options 0 big [] (initial_world 0)
            = Some (Corruption ''QPL status 4294967293'', out', w')
          \<and> length out' = 4294967295"
    unfolding r2 x2 using o2 by (simp add: capacity_probe_fields QPL_STATUS_4294967293)
  show ?thesis by (intro conjI s1 e1 c1 abc_run s2 EncodeSize_big c2 big_run)
qed

section \<open>Inputs of 4 GiB and more\<close>

lemma resize_append_take:
  "k \<le> length s \<Longrightarrow> resize (length p + k) (p @ s) = p @ take k s"
  by (simp add: resize_def)

lemma unat_header_plus:
  fixes h a :: u32
  assumes "unat h + unat a < 2 ^ 32"
  shows "unat (h + a) = unat h + unat a"
  using assms by (simp add: unat_word_ariths)

text \<open>
  Claim C10. For an input block of at least \<open>2^32\<close> bytes (and below \<open>2^63\<close>),
  \<open>Compress\<close> has no failure of its own and no clamping of the length. \<open>EncodeSize\<close>
  returns normally, and the prefix it writes is the varint of the \<open>size_t\<close> length converted
  to \<open>uint32_t\<close>, that is, of the length modulo \<open>2^32\<close>, which differs from the length.
  Only the size of the output buffer is clamped, to \<open>2^32 - 1\<close>. The job is executed with
  \<open>available_in\<close> the length modulo \<open>2^32\<close> and \<open>available_out = 2^32 - 1 - h\<close>. The only
  failures are those of the acquisition of the job and of the backend: \<open>Compress\<close> returns
  \<open>OK\<close> whenever the backend ends with \<open>QPL_STS_OK\<close>. A failing return hands back the
  \<open>2^32 - 1\<close> bytes, which start with the prefix; a successful one hands back
  \<open>h + total_out\<close> bytes (a sum in \<open>uint32_t\<close>), which are the prefix followed by
  \<open>total_out\<close> bytes of the destination when \<open>total_out\<close> is within \<open>available_out\<close>.
\<close>

theorem C10_length_prefix_truncated:
  assumes "2 ^ 32 \<le> unat (slice_size input)" and "unat (slice_size input) < 2 ^ 63"
    and "enc = EncodeVarint32 (ucast (slice_size input))"
    and "h = of_nat (length enc)"
  shows "EncodeSize (slice_size input) [] = (h, enc)
         \<and> unat h = length enc
         \<and> unat (ucast (slice_size input) :: u32) = unat (slice_size input) mod 2 ^ 32
         \<and> unat (ucast (slice_size input) :: u32) \<noteq> unat (slice_size input)
         \<and> Compress_prepare input [] = (h, 0xFFFFFFFF, resize (2 ^ 32 - 1) enc)
         \<and> take (length enc) (resize (2 ^ 32 - 1) enc) = enc
         \<and> (\<forall>s w1. get_deflate_job x t (execution_path options) w = (Inl s, w1) \<longrightarrow>
               Compress x options t input [] w = Some (s, resize (2 ^ 32 - 1) enc, w1))
         \<and> (\<forall>j. unat (available_in
                       (Compress_set_job x options input h 0xFFFFFFFF
                          (resize (2 ^ 32 - 1) enc) j))
                   = unat (slice_size input) mod 2 ^ 32
                 \<and> unat (available_out
                       (Compress_set_job x options input h 0xFFFFFFFF
                          (resize (2 ^ 32 - 1) enc) j))
                   = 2 ^ 32 - 1 - length enc)
         \<and> (\<forall>j w1 status j' e' cs'.
               get_deflate_job x t (execution_path options) w = (Inr j, w1)
               \<and> execute_while_busy x (QPL_STS_QUEUES_ARE_BUSY_ERR x)
                    (Compress_set_job x options input h 0xFFFFFFFF (resize (2 ^ 32 - 1) enc) j)
                    (env w1) (calls w1)
                  = Some (status, j', e', cs') \<longrightarrow>
               (\<exists>out'. Compress x options t input [] w
                         = Some (if status \<noteq> QPL_STS_OK x
                                 then Corruption (QPL_STATUS status) else OK,
                                 out',
                                 put_deflate_job t (execution_path options) j'
                                   (w1\<lparr>env := e', calls := cs'\<rparr>))
                  \<and> (status \<noteq> QPL_STS_OK x \<longrightarrow>
                        length out' = 2 ^ 32 - 1 \<and> take (length enc) out' = enc)
                  \<and> (status = QPL_STS_OK x \<longrightarrow>
                        length out' = unat (h + total_out j')
                        \<and> (unat (total_out j') \<le> 2 ^ 32 - 1 - length enc \<longrightarrow>
                             out' = enc @ take (unat (total_out j'))
                                      (store (drop (length enc) (resize (2 ^ 32 - 1) enc))
                                         (next_out_ptr j'))))))"
proof -
  let ?n = "slice_size input"
  let ?N = "2 ^ 32 - 1 :: nat"
  let ?out1 = "resize ?N enc"
  have len: "1 \<le> length enc" "length enc \<le> 5"
    using EncodeVarint32_length [of "ucast ?n"] assms(3) by simp_all
  have uh: "unat h = length enc" using assms(4) len by (simp add: unat_of_nat)
  have es: "EncodeSize ?n [] = (h, enc)"
    using assms(3,4) by (simp add: EncodeSize_def PutVarint32_def Let_def)
  have m: "unat (ucast ?n :: u32) = unat ?n mod 2 ^ 32"
    by (simp add: unsigned_ucast_eq take_bit_eq_mod)
  have "unat (ucast ?n :: u32) < 2 ^ 32" by (rule unat_u32_bound)
  then have ne: "unat (ucast ?n :: u32) \<noteq> unat ?n" using assms(1) by simp
  have cap: "?N = min (unat h + unat ?n + 5 * ceil_div (unat ?n) 65535) (2 ^ 32 - 1)"
    using assms(1) by simp
  note prep0 = Compress_prepare_capacity [OF assms(2) es cap]
  have N: "(of_nat ?N :: size_t) = 0xFFFFFFFF" by simp
  have prep: "Compress_prepare input [] = (h, 0xFFFFFFFF, ?out1)"
    using prep0(1) unfolding N .
  have pre: "take (length enc) ?out1 = enc"
    using take_resize_prefix [of enc ?N "[]"] len by simp
  have l1: "length ?out1 = ?N" by (rule length_resize)
  have region: "length (drop (length enc) ?out1) = ?N - length enc"
    by (simp add: length_resize)
  have nojob: "\<forall>s w1. get_deflate_job x t (execution_path options) w = (Inl s, w1) \<longrightarrow>
               Compress x options t input [] w = Some (s, ?out1, w1)"
    using Compress_no_job [OF prep] by blast
  have fields: "\<forall>j. unat (available_in (Compress_set_job x options input h 0xFFFFFFFF ?out1 j))
                   = unat ?n mod 2 ^ 32
                 \<and> unat (available_out (Compress_set_job x options input h 0xFFFFFFFF ?out1 j))
                   = ?N - length enc"
  proof (intro allI conjI)
    fix j
    show "unat (available_in (Compress_set_job x options input h 0xFFFFFFFF ?out1 j))
            = unat ?n mod 2 ^ 32"
      using m by (simp add: Compress_set_job_fields)
    have "unat (ucast ((0xFFFFFFFF :: size_t) - ucast h) :: u32)
            = unat (0xFFFFFFFF :: size_t) - unat h"
      by (rule unat_available_out) (use uh len in simp_all)
    then show "unat (available_out (Compress_set_job x options input h 0xFFFFFFFF ?out1 j))
            = ?N - length enc"
      using uh by (simp add: Compress_set_job_fields)
  qed
  have run: "\<exists>out'. Compress x options t input [] w
                         = Some (if status \<noteq> QPL_STS_OK x
                                 then Corruption (QPL_STATUS status) else OK,
                                 out',
                                 put_deflate_job t (execution_path options) j'
                                   (w1\<lparr>env := e', calls := cs'\<rparr>))
                  \<and> (status \<noteq> QPL_STS_OK x \<longrightarrow>
                        length out' = ?N \<and> take (length enc) out' = enc)
                  \<and> (status = QPL_STS_OK x \<longrightarrow>
                        length out' = unat (h + total_out j')
                        \<and> (unat (total_out j') \<le> ?N - length enc \<longrightarrow>
                             out' = enc @ take (unat (total_out j'))
                                      (store (drop (length enc) ?out1) (next_out_ptr j'))))"
    if h: "get_deflate_job x t (execution_path options) w = (Inr j, w1)
           \<and> execute_while_busy x (QPL_STS_QUEUES_ARE_BUSY_ERR x)
                    (Compress_set_job x options input h 0xFFFFFFFF ?out1 j)
                    (env w1) (calls w1)
                  = Some (status, j', e', cs')"
    for j w1 status j' e' cs'
  proof -
    let ?S = "store (drop (length enc) ?out1) (next_out_ptr j')"
    let ?o = "take (unat h) ?out1 @ store (drop (unat h) ?out1) (next_out_ptr j')"
    have o: "?o = enc @ ?S" using pre uh by simp
    have lS: "length ?S = ?N - length enc" by (simp only: length_store region)
    have lo: "length (enc @ ?S) = ?N" using lS len by simp
    note eq = Compress_with_job [OF prep h [THEN conjunct1], unfolded h [THEN conjunct2]
        option.case prod.case o]
    show ?thesis
    proof (cases "status = QPL_STS_OK x")
      case False
      have "length (enc @ ?S) = ?N \<and> take (length enc) (enc @ ?S) = enc"
        using lo by simp
      with eq False show ?thesis by simp
    next
      case True
      have a: "length (resize (unat (h + total_out j')) (enc @ ?S)) = unat (h + total_out j')"
        by (rule length_resize)
      have b: "resize (unat (h + total_out j')) (enc @ ?S)
                 = enc @ take (unat (total_out j')) ?S"
        if "unat (total_out j') \<le> ?N - length enc"
      proof -
        have "unat h + unat (total_out j') < 2 ^ 32" using that uh len by simp
        then have "unat (h + total_out j') = length enc + unat (total_out j')"
          using unat_header_plus [of h "total_out j'"] uh by simp
        moreover have "unat (total_out j') \<le> length ?S" using that lS by simp
        ultimately show ?thesis using resize_append_take [of "unat (total_out j')" ?S enc]
          by simp
      qed
      from eq True a b show ?thesis by simp
    qed
  qed
  from run have run': "\<forall>j w1 status j' e' cs'.
               get_deflate_job x t (execution_path options) w = (Inr j, w1)
               \<and> execute_while_busy x (QPL_STS_QUEUES_ARE_BUSY_ERR x)
                    (Compress_set_job x options input h 0xFFFFFFFF ?out1 j)
                    (env w1) (calls w1)
                  = Some (status, j', e', cs') \<longrightarrow>
               (\<exists>out'. Compress x options t input [] w
                         = Some (if status \<noteq> QPL_STS_OK x
                                 then Corruption (QPL_STATUS status) else OK,
                                 out',
                                 put_deflate_job t (execution_path options) j'
                                   (w1\<lparr>env := e', calls := cs'\<rparr>))
                  \<and> (status \<noteq> QPL_STS_OK x \<longrightarrow>
                        length out' = ?N \<and> take (length enc) out' = enc)
                  \<and> (status = QPL_STS_OK x \<longrightarrow>
                        length out' = unat (h + total_out j')
                        \<and> (unat (total_out j') \<le> ?N - length enc \<longrightarrow>
                             out' = enc @ take (unat (total_out j'))
                                      (store (drop (length enc) ?out1) (next_out_ptr j')))))"
    by (intro allI impI)
  show ?thesis by (intro conjI es uh m ne prep pre nojob fields run')
qed

lemma ucast_size_big: "(ucast (slice_size big) :: u32) = 300"
  by (simp add: big_def)

lemma EncodeVarint32_big: "EncodeVarint32 (ucast (slice_size big)) = [172, 2]"
  unfolding ucast_size_big by (simp add: EncodeVarint32.simps)

theorem C10_length_prefix_truncated_witness:
  "2 ^ 32 \<le> unat (slice_size big) \<and> unat (slice_size big) < 2 ^ 63
   \<and> [172, 2] = EncodeVarint32 (ucast (slice_size big))
   \<and> (2 :: u32) = of_nat (length [172, 2 :: u8])
   \<and> EncodeSize (slice_size big) [] = (2, [172, 2])
   \<and> unat (ucast (slice_size big) :: u32) = 300
   \<and> (\<exists>out' w'. Compress (copy_double 0 0 (\<lambda>n. 0)) default_options 0 big [] (initial_world 0)
                  = Some (OK, out', w')
          \<and> length out' = 302 \<and> take 2 out' = [172, 2])"
proof -
  let ?D = "copy_double 0 0 (\<lambda>n. 0)"
  have lo: "2 ^ 32 \<le> unat (slice_size big)" and hi: "unat (slice_size big) < 2 ^ 63"
    by (simp_all add: big_def)
  have enc: "[172, 2] = EncodeVarint32 (ucast (slice_size big))"
    by (simp add: EncodeVarint32_big)
  have h: "(2 :: u32) = of_nat (length [172, 2 :: u8])" by simp
  note c = C10_length_prefix_truncated [OF lo hi enc h]
  have es: "EncodeSize (slice_size big) [] = (2, [172, 2])"
    by (rule c [THEN conjunct1])
  have m: "unat (ucast (slice_size big) :: u32) = 300"
    by (simp add: ucast_size_big)
  let ?cj = "Compress_set_job ?D default_options big 2 0xFFFFFFFF
               (resize (2 ^ 32 - 1) [172, 2]) blank_job"
  let ?j' = "?cj\<lparr>next_out_ptr := take (unat (available_in ?cj)) (next_in_ptr ?cj),
                  total_out := available_in ?cj\<rparr>"
  have t: "total_out ?j' = 300"
    by (simp add: Compress_set_job_fields ucast_size_big)
  from c [THEN conjunct2, THEN conjunct2, THEN conjunct2, THEN conjunct2, THEN conjunct2,
      THEN conjunct2, THEN conjunct2, THEN conjunct2, rule_format,
      OF conjI [OF abc_deflate_job copy_double_executes]]
  obtain out' where
    run: "Compress ?D default_options 0 big [] (initial_world 0)
            = Some (if QPL_STS_OK ?D \<noteq> QPL_STS_OK ?D
                    then Corruption (QPL_STATUS (QPL_STS_OK ?D)) else OK,
                    out',
                    put_deflate_job 0 (execution_path default_options) ?j'
                      (\<lparr>deflate_job_cache = (\<lambda>t p. None)
                          (0 := (\<lambda>p. None)(qpl_path_auto \<mapsto>
                                   \<lparr>job = blank_job, initialized = True\<rparr>)),
                        inflate_job_cache = (\<lambda>t p. None),
                        env = 0,
                        calls = [Call_qpl_get_job_size qpl_path_auto, Call_make_unique 4096,
                                 Call_qpl_init_job qpl_path_auto]\<rparr>
                       \<lparr>env := Suc 0,
                         calls := [Call_qpl_get_job_size qpl_path_auto, Call_make_unique 4096,
                                   Call_qpl_init_job qpl_path_auto] @ [Call_qpl_execute_job]\<rparr>))"
    and ok: "QPL_STS_OK ?D = QPL_STS_OK ?D \<longrightarrow>
               length out' = unat (2 + total_out ?j')
               \<and> (unat (total_out ?j') \<le> 2 ^ 32 - 1 - length [172, 2 :: u8] \<longrightarrow>
                    out' = [172, 2] @ take (unat (total_out ?j'))
                             (store (drop (length [172, 2 :: u8]) (resize (2 ^ 32 - 1) [172, 2]))
                                (next_out_ptr ?j')))"
    by auto
  have l: "length out' = 302" using ok unfolding t by (simp add: length_store length_resize)
  have "out' = [172, 2] @ take (unat (300 :: u32))
                 (store (drop (length [172, 2 :: u8]) (resize (2 ^ 32 - 1) [172, 2]))
                    (next_out_ptr ?j'))"
    using ok unfolding t by simp
  then have p: "take 2 out' = [172, 2]" by simp
  have r: "Compress ?D default_options 0 big [] (initial_world 0)
            = Some (OK, out',
                    put_deflate_job 0 (execution_path default_options) ?j'
                      (\<lparr>deflate_job_cache = (\<lambda>t p. None)
                          (0 := (\<lambda>p. None)(qpl_path_auto \<mapsto>
                                   \<lparr>job = blank_job, initialized = True\<rparr>)),
                        inflate_job_cache = (\<lambda>t p. None),
                        env = 0,
                        calls = [Call_qpl_get_job_size qpl_path_auto, Call_make_unique 4096,
                                 Call_qpl_init_job qpl_path_auto]\<rparr>
                       \<lparr>env := Suc 0,
                         calls := [Call_qpl_get_job_size qpl_path_auto, Call_make_unique 4096,
                                   Call_qpl_init_job qpl_path_auto] @ [Call_qpl_execute_job]\<rparr>))"
    using run by simp
  have last: "\<exists>out' w'. Compress ?D default_options 0 big [] (initial_world 0)
                  = Some (OK, out', w')
          \<and> length out' = 302 \<and> take 2 out' = [172, 2]"
    by (rule exI [of _ out'], rule exI, rule conjI, rule r, rule conjI, rule l, rule p)
  show ?thesis by (intro conjI lo hi enc h es m last)
qed

section \<open>Reuse of the cached jobs\<close>


lemma get_inflate_job_ignores_deflate_cache:
  "get_inflate_job x t p (w\<lparr>deflate_job_cache := c\<rparr>) =
     (case get_inflate_job x t p w of (r, w1) \<Rightarrow> (r, w1\<lparr>deflate_job_cache := c\<rparr>))"
  by (simp add: get_inflate_job_def Let_def split: option.splits prod.splits)


lemma put_deflate_job_commutes:
  "put_deflate_job t p j (w\<lparr>inflate_job_cache := c\<rparr>) =
     (put_deflate_job t p j w)\<lparr>inflate_job_cache := c\<rparr>"
  by (simp add: put_deflate_job_def)

lemma put_inflate_job_commutes:
  "put_inflate_job t p j (w\<lparr>deflate_job_cache := c\<rparr>) =
     (put_inflate_job t p j w)\<lparr>deflate_job_cache := c\<rparr>"
  by (simp add: put_inflate_job_def)







lemma Compress_reuse:
  assumes "deflate_job_cache w t (execution_path options) = Some b"
    and "Compress x options t input out w = Some (st, out', w')"
  shows "\<exists>k b'. 1 \<le> k \<and> calls w' = calls w @ replicate k Call_qpl_execute_job
           \<and> deflate_job_cache w' t (execution_path options) = Some b'
           \<and> initialized b' = initialized b"
proof -
  obtain h cap out1 where prep: "Compress_prepare input out = (h, cap, out1)"
    by (metis prod.exhaust)
  have g: "get_deflate_job x t (execution_path options) w = (Inr (job b), w)"
    using assms(1) by (simp add: get_deflate_job_def)
  from assms(2) prep show ?thesis
  proof (cases rule: Compress_cases)
    case no_job
    with g show ?thesis by simp
  next
    case (executed j w1 status j' e' cs')
    with g have w1: "w1 = w" by simp
    from execute_while_busy_calls [OF executed(2)] obtain k where
      k: "cs' = calls w1 @ replicate k Call_qpl_execute_job" "1 \<le> k" by auto
    show ?thesis
      using executed(5) k w1 assms(1)
      by (intro exI [of _ k] exI [of _ "b\<lparr>job := j'\<rparr>"]) (simp add: put_deflate_job_def)
  qed
qed

lemma Uncompress_reuse:
  assumes "inflate_job_cache w t (execution_path options) = Some b"
    and "Uncompress x options t info input input_length out out_length w
         = Some (OK, out', len', w')"
  shows "\<exists>sz k b'. 1 \<le> k \<and> calls w' = calls w @ Call_Allocate sz # replicate k Call_qpl_execute_job
           \<and> inflate_job_cache w' t (execution_path options) = Some b'
           \<and> initialized b' = initialized b"
  using assms(2)
proof (cases rule: Uncompress_cases)
  case (no_job input1 len1 n a dest e1)
  then show ?thesis using assms(1) by (simp add: get_inflate_job_def)
next
  case (executed input1 len1 n a dest e1 j w1 status j' e' cs')
  let ?w = "w\<lparr>env := e1, calls := calls w @ [Call_Allocate (ucast n)]\<rparr>"
  have "get_inflate_job x t (execution_path options) ?w = (Inr (job b), ?w)"
    using assms(1) by (simp add: get_inflate_job_def)
  with executed(3) have w1: "w1 = ?w" by simp
  from execute_while_busy_calls [OF executed(4)] obtain k where
    k: "cs' = calls w1 @ replicate k Call_qpl_execute_job" "1 \<le> k" by auto
  show ?thesis
    using executed(8) k w1 assms(1)
    by (intro exI [of _ "ucast n"] exI [of _ k] exI [of _ "b\<lparr>job := j'\<rparr>"])
       (simp add: put_inflate_job_def)
qed simp_all



lemma Uncompress_reuse_any:
  assumes "inflate_job_cache w t (execution_path options) = Some b"
    and "Uncompress x options t info input input_length out out_length w
         = Some (st, out', len', w')"
  shows "\<exists>cs b'. calls w' = calls w @ cs
           \<and> (\<forall>p. Call_qpl_get_job_size p \<notin> set cs) \<and> (\<forall>sz. Call_make_unique sz \<notin> set cs)
           \<and> (\<forall>p. Call_qpl_init_job p \<notin> set cs)
           \<and> inflate_job_cache w' t (execution_path options) = Some b'
           \<and> initialized b' = initialized b"
  using assms(2)
proof (cases rule: Uncompress_cases)
  case framing
  with assms(1) show ?thesis by simp
next
  case (throws input1 len1 n e1)
  with assms(1) show ?thesis by simp
next
  case (null input1 len1 n e1)
  with assms(1) show ?thesis by simp
next
  case (no_job input1 len1 n a dest e1)
  then show ?thesis using assms(1) by (simp add: get_inflate_job_def)
next
  case (executed input1 len1 n a dest e1 j w1 status j' e' cs')
  let ?w = "w\<lparr>env := e1, calls := calls w @ [Call_Allocate (ucast n)]\<rparr>"
  have "get_inflate_job x t (execution_path options) ?w = (Inr (job b), ?w)"
    using assms(1) by (simp add: get_inflate_job_def)
  with executed(3) have w1: "w1 = ?w" by simp
  from execute_while_busy_calls [OF executed(4)] obtain k where
    k: "cs' = calls w1 @ replicate k Call_qpl_execute_job" by auto
  show ?thesis
    using executed(8) k w1 assms(1)
    by (intro exI [of _ "Call_Allocate (ucast n) # replicate k Call_qpl_execute_job"]
          exI [of _ "b\<lparr>job := j'\<rparr>"])
       (simp add: put_inflate_job_def)
qed

















section \<open>A failed initialisation\<close>

lemma get_deflate_job_init_failed:
  assumes "deflate_job_cache w t p = None"
    and "qpl_get_job_size x (env w) p = ((QPL_STS_OK x, sz), e1)"
    and "make_unique x e1 sz = (True, e2)"
    and "qpl_init_job x e2 p = ((status, j), e3)"
    and "status \<noteq> QPL_STS_OK x"
  shows "get_deflate_job x t p w =
     (Inl (Corruption (QPL_STATUS status)),
      w\<lparr>deflate_job_cache := (deflate_job_cache w)
            (t := (deflate_job_cache w t)(p \<mapsto> \<lparr>job = j, initialized = False\<rparr>)),
        env := e3,
        calls := calls w @ [Call_qpl_get_job_size p, Call_make_unique sz, Call_qpl_init_job p]\<rparr>)"
  using assms by (simp add: get_deflate_job_def)

lemma get_inflate_job_init_failed:
  assumes "inflate_job_cache w t p = None"
    and "qpl_get_job_size x (env w) p = ((QPL_STS_OK x, sz), e1)"
    and "make_unique x e1 sz = (True, e2)"
    and "qpl_init_job x e2 p = ((status, j), e3)"
    and "status \<noteq> QPL_STS_OK x"
  shows "get_inflate_job x t p w =
     (Inl (Corruption (QPL_STATUS status)),
      w\<lparr>inflate_job_cache := (inflate_job_cache w)
            (t := (inflate_job_cache w t)(p \<mapsto> \<lparr>job = j, initialized = False\<rparr>)),
        env := e3,
        calls := calls w @ [Call_qpl_get_job_size p, Call_make_unique sz, Call_qpl_init_job p]\<rparr>)"
  using assms by (simp add: get_inflate_job_def)

lemma Compress_init_failed:
  assumes "deflate_job_cache w t (execution_path options) = None"
    and "qpl_get_job_size x (env w) (execution_path options) = ((QPL_STS_OK x, sz), e1)"
    and "make_unique x e1 sz = (True, e2)"
    and "qpl_init_job x e2 (execution_path options) = ((status, j), e3)"
    and "status \<noteq> QPL_STS_OK x"
  shows "\<exists>out' w'. Compress x options t input out w
             = Some (Corruption (QPL_STATUS status), out', w')
           \<and> deflate_job_cache w' t (execution_path options)
               = Some \<lparr>job = j, initialized = False\<rparr>
           \<and> calls w' = calls w @ [Call_qpl_get_job_size (execution_path options),
                 Call_make_unique sz, Call_qpl_init_job (execution_path options)]"
proof -
  obtain h cap out1 where prep: "Compress_prepare input out = (h, cap, out1)"
    by (metis prod.exhaust)
  from Compress_no_job [OF prep get_deflate_job_init_failed [OF assms]]
  show ?thesis by simp
qed

lemma Uncompress_init_failed:
  assumes "DecodeSize input input_length = Some (input1, len1, n)"
    and "Allocate (env w) (ucast n) (GetMemoryAllocator info) = (Returns (Ptr a dest), ea)"
    and "inflate_job_cache w t (execution_path options) = None"
    and "qpl_get_job_size x ea (execution_path options) = ((QPL_STS_OK x, sz), e1)"
    and "make_unique x e1 sz = (True, e2)"
    and "qpl_init_job x e2 (execution_path options) = ((status, j), e3)"
    and "status \<noteq> QPL_STS_OK x"
  shows "\<exists>w'. Uncompress x options t info input input_length out out_length w
             = Some (Corruption (QPL_STATUS status), Ptr a dest, out_length, w')
           \<and> inflate_job_cache w' t (execution_path options)
               = Some \<lparr>job = j, initialized = False\<rparr>
           \<and> calls w' = calls w @ [Call_Allocate (ucast n),
                 Call_qpl_get_job_size (execution_path options),
                 Call_make_unique sz, Call_qpl_init_job (execution_path options)]"
proof -
  let ?w = "w\<lparr>env := ea, calls := calls w @ [Call_Allocate (ucast n)]\<rparr>"
  have "get_inflate_job x t (execution_path options) ?w =
     (Inl (Corruption (QPL_STATUS status)),
      ?w\<lparr>inflate_job_cache := (inflate_job_cache ?w)
            (t := (inflate_job_cache ?w t)
               (execution_path options \<mapsto> \<lparr>job = j, initialized = False\<rparr>)),
        env := e3,
        calls := calls ?w @ [Call_qpl_get_job_size (execution_path options),
                   Call_make_unique sz, Call_qpl_init_job (execution_path options)]\<rparr>)"
    by (rule get_inflate_job_init_failed) (use assms in simp_all)
  from Uncompress_no_job [OF assms(1,2) this] show ?thesis by simp
qed

lemma deflate_entry_breaks_invariant:
  "deflate_job_cache w t p = Some \<lparr>job = j, initialized = False\<rparr> \<Longrightarrow>
   \<not> every_cached_job_initialized w"
  unfolding every_cached_job_initialized_def by force

lemma inflate_entry_breaks_invariant:
  "inflate_job_cache w t p = Some \<lparr>job = j, initialized = False\<rparr> \<Longrightarrow>
   \<not> every_cached_job_initialized w"
  unfolding every_cached_job_initialized_def by force

text \<open>
  Claim C8. The invariant \<open>every_cached_job_initialized\<close> is not preserved when
  \<open>qpl_init_job\<close> fails on first use. If the entry of a thread and path is null, sizing and
  allocation succeed and \<open>qpl_init_job\<close> returns a status other than \<open>QPL_STS_OK\<close>, then
  \<open>Compress\<close> returns \<open>Corruption\<close> with that status and leaves the entry non-null, holding the
  job that was never initialised; the next \<open>Compress\<close> on that thread and path obtains this
  job with no call to the backend, makes no sizing, allocation or initialisation call, executes
  the job at least once, and leaves the entry uninitialised. The same holds of \<open>Uncompress\<close>
  and the decompression cache: every later call that returns makes no sizing, allocation or
  initialisation call, a later call that returns \<open>OK\<close> has executed the job, and the entry stays
  uninitialised.
\<close>

theorem C8_init_failure_keeps_entry:
  assumes "deflate_job_cache w t (execution_path options) = None"
    and "qpl_get_job_size x (env w) (execution_path options) = ((QPL_STS_OK x, sz), e1)"
    and "make_unique x e1 sz = (True, e2)"
    and "qpl_init_job x e2 (execution_path options) = ((status, j), e3)"
    and "status \<noteq> QPL_STS_OK x"
    and "DecodeSize uinput input_length = Some (input1, len1, n)"
    and "Allocate (env w) (ucast n) (GetMemoryAllocator info) = (Returns (Ptr a dest), ea)"
    and "inflate_job_cache w t (execution_path options) = None"
    and "qpl_get_job_size x ea (execution_path options) = ((QPL_STS_OK x, usz), f1)"
    and "make_unique x f1 usz = (True, f2)"
    and "qpl_init_job x f2 (execution_path options) = ((ustatus, i), f3)"
    and "ustatus \<noteq> QPL_STS_OK x"
  shows "(\<exists>out' w'. Compress x options t input out w
              = Some (Corruption (QPL_STATUS status), out', w')
            \<and> deflate_job_cache w' t (execution_path options)
                = Some \<lparr>job = j, initialized = False\<rparr>
            \<and> \<not> every_cached_job_initialized w'
            \<and> get_deflate_job x t (execution_path options) w' = (Inr j, w')
            \<and> (\<forall>options2 input2 out2 st2 out2' w2.
                  execution_path options2 = execution_path options
                  \<and> Compress x options2 t input2 out2 w' = Some (st2, out2', w2) \<longrightarrow>
                  (\<exists>k b. 1 \<le> k \<and> calls w2 = calls w' @ replicate k Call_qpl_execute_job
                     \<and> deflate_job_cache w2 t (execution_path options) = Some b
                     \<and> \<not> initialized b)))
         \<and> (\<exists>w'. Uncompress x options t info uinput input_length uout uout_length w
              = Some (Corruption (QPL_STATUS ustatus), Ptr a dest, uout_length, w')
            \<and> inflate_job_cache w' t (execution_path options)
                = Some \<lparr>job = i, initialized = False\<rparr>
            \<and> \<not> every_cached_job_initialized w'
            \<and> (\<forall>e cs. get_inflate_job x t (execution_path options) (w'\<lparr>env := e, calls := cs\<rparr>)
                         = (Inr i, w'\<lparr>env := e, calls := cs\<rparr>))
            \<and> (\<forall>options2 info2 input2 len2 out2 outlen2 st2 out2' len2' w2.
                  execution_path options2 = execution_path options
                  \<and> Uncompress x options2 t info2 input2 len2 out2 outlen2 w'
                      = Some (st2, out2', len2', w2) \<longrightarrow>
                  (\<exists>cs b. calls w2 = calls w' @ cs
                     \<and> (\<forall>p. Call_qpl_get_job_size p \<notin> set cs)
                     \<and> (\<forall>sz. Call_make_unique sz \<notin> set cs)
                     \<and> (\<forall>p. Call_qpl_init_job p \<notin> set cs)
                     \<and> (st2 = OK \<longrightarrow> Call_qpl_execute_job \<in> set cs)
                     \<and> inflate_job_cache w2 t (execution_path options) = Some b
                     \<and> \<not> initialized b)))"
proof (rule conjI)
  from Compress_init_failed [where t = t and input = input and out = out, OF assms(1-5)]
  obtain out' w' where run: "Compress x options t input out w
             = Some (Corruption (QPL_STATUS status), out', w')"
    and entry: "deflate_job_cache w' t (execution_path options)
               = Some \<lparr>job = j, initialized = False\<rparr>" by blast
  have inv: "\<not> every_cached_job_initialized w'"
    using entry by (rule deflate_entry_breaks_invariant)
  have get: "get_deflate_job x t (execution_path options) w' = (Inr j, w')"
    using entry by (simp add: get_deflate_job_def)
  have next_call: "\<exists>k b. 1 \<le> k \<and> calls w2 = calls w' @ replicate k Call_qpl_execute_job
                     \<and> deflate_job_cache w2 t (execution_path options) = Some b
                     \<and> \<not> initialized b"
    if "execution_path options2 = execution_path options
          \<and> Compress x options2 t input2 out2 w' = Some (st2, out2', w2)"
    for options2 input2 out2 st2 out2' w2
  proof -
    from that entry have e2: "deflate_job_cache w' t (execution_path options2)
        = Some \<lparr>job = j, initialized = False\<rparr>" by simp
    from Compress_reuse [OF e2] that show ?thesis by fastforce
  qed
  show "\<exists>out' w'. Compress x options t input out w
              = Some (Corruption (QPL_STATUS status), out', w')
            \<and> deflate_job_cache w' t (execution_path options)
                = Some \<lparr>job = j, initialized = False\<rparr>
            \<and> \<not> every_cached_job_initialized w'
            \<and> get_deflate_job x t (execution_path options) w' = (Inr j, w')
            \<and> (\<forall>options2 input2 out2 st2 out2' w2.
                  execution_path options2 = execution_path options
                  \<and> Compress x options2 t input2 out2 w' = Some (st2, out2', w2) \<longrightarrow>
                  (\<exists>k b. 1 \<le> k \<and> calls w2 = calls w' @ replicate k Call_qpl_execute_job
                     \<and> deflate_job_cache w2 t (execution_path options) = Some b
                     \<and> \<not> initialized b))"
    using run entry inv get next_call by (intro exI [of _ out'] exI [of _ w'] conjI allI impI)
next
  from Uncompress_init_failed [where t = t and out = uout and out_length = uout_length, OF assms(6-12)]
  obtain w' where run: "Uncompress x options t info uinput input_length uout uout_length w
              = Some (Corruption (QPL_STATUS ustatus), Ptr a dest, uout_length, w')"
    and entry: "inflate_job_cache w' t (execution_path options)
               = Some \<lparr>job = i, initialized = False\<rparr>" by blast
  have inv: "\<not> every_cached_job_initialized w'"
    using entry by (rule inflate_entry_breaks_invariant)
  have get: "get_inflate_job x t (execution_path options) (w'\<lparr>env := e, calls := cs\<rparr>)
                         = (Inr i, w'\<lparr>env := e, calls := cs\<rparr>)" for e cs
    using entry by (simp add: get_inflate_job_def)
  have next_call: "\<exists>cs b. calls w2 = calls w' @ cs
                     \<and> (\<forall>p. Call_qpl_get_job_size p \<notin> set cs)
                     \<and> (\<forall>sz. Call_make_unique sz \<notin> set cs)
                     \<and> (\<forall>p. Call_qpl_init_job p \<notin> set cs)
                     \<and> (st2 = OK \<longrightarrow> Call_qpl_execute_job \<in> set cs)
                     \<and> inflate_job_cache w2 t (execution_path options) = Some b
                     \<and> \<not> initialized b"
    if "execution_path options2 = execution_path options
          \<and> Uncompress x options2 t info2 input2 len2 out2 outlen2 w'
              = Some (st2, out2', len2', w2)"
    for options2 info2 input2 len2 out2 outlen2 st2 out2' len2' w2
  proof -
    from that entry have e2: "inflate_job_cache w' t (execution_path options2)
        = Some \<lparr>job = i, initialized = False\<rparr>" by simp
    from Uncompress_reuse_any [OF e2] that obtain cs b where
      cs: "calls w2 = calls w' @ cs" "\<forall>p. Call_qpl_get_job_size p \<notin> set cs"
        "\<forall>sz. Call_make_unique sz \<notin> set cs" "\<forall>p. Call_qpl_init_job p \<notin> set cs"
        "inflate_job_cache w2 t (execution_path options) = Some b" "\<not> initialized b"
      by fastforce
    have "Call_qpl_execute_job \<in> set cs" if ok: "st2 = OK"
    proof -
      from Uncompress_reuse [OF e2] \<open>execution_path options2 = execution_path options
          \<and> Uncompress x options2 t info2 input2 len2 out2 outlen2 w'
              = Some (st2, out2', len2', w2)\<close> ok
      obtain sz k where "1 \<le> k"
        "calls w2 = calls w' @ Call_Allocate sz # replicate k Call_qpl_execute_job"
        by blast
      with cs(1) have "cs = Call_Allocate sz # replicate k Call_qpl_execute_job" by simp
      with \<open>1 \<le> k\<close> show ?thesis by (cases k) simp_all
    qed
    with cs show ?thesis by blast
  qed
  show "\<exists>w'. Uncompress x options t info uinput input_length uout uout_length w
              = Some (Corruption (QPL_STATUS ustatus), Ptr a dest, uout_length, w')
            \<and> inflate_job_cache w' t (execution_path options)
                = Some \<lparr>job = i, initialized = False\<rparr>
            \<and> \<not> every_cached_job_initialized w'
            \<and> (\<forall>e cs. get_inflate_job x t (execution_path options) (w'\<lparr>env := e, calls := cs\<rparr>)
                         = (Inr i, w'\<lparr>env := e, calls := cs\<rparr>))
            \<and> (\<forall>options2 info2 input2 len2 out2 outlen2 st2 out2' len2' w2.
                  execution_path options2 = execution_path options
                  \<and> Uncompress x options2 t info2 input2 len2 out2 outlen2 w'
                      = Some (st2, out2', len2', w2) \<longrightarrow>
                  (\<exists>cs b. calls w2 = calls w' @ cs
                     \<and> (\<forall>p. Call_qpl_get_job_size p \<notin> set cs)
                     \<and> (\<forall>sz. Call_make_unique sz \<notin> set cs)
                     \<and> (\<forall>p. Call_qpl_init_job p \<notin> set cs)
                     \<and> (st2 = OK \<longrightarrow> Call_qpl_execute_job \<in> set cs)
                     \<and> inflate_job_cache w2 t (execution_path options) = Some b
                     \<and> \<not> initialized b))"
    using run entry inv get next_call by (intro exI [of _ w'] conjI allI impI)
qed

lemma copy_double_init_failed_executes:
  "execute_while_busy (copy_double 0 500 (\<lambda>n. 0))
     (QPL_STS_QUEUES_ARE_BUSY_ERR (copy_double 0 500 (\<lambda>n. 0))) j e cs
   = Some (QPL_STS_OK (copy_double 0 500 (\<lambda>n. 0)),
           j\<lparr>next_out_ptr := take (unat (available_in j)) (next_in_ptr j),
             total_out := available_in j\<rparr>, Suc e, cs @ [Call_qpl_execute_job])"
  by (simp add: execute_while_busy.simps copy_double_def)

lemma QPL_STATUS_500: "QPL_STATUS 500 = ''QPL status 500''"
  by code_simp

theorem C8_init_failure_keeps_entry_witness:
  "\<exists>out1 w1 out2 w2 v1 p2 len2 v2.
     every_cached_job_initialized (initial_world (0 :: nat))
     \<and> Compress (copy_double 0 500 (\<lambda>n. 0)) default_options 0 abc [] (initial_world 0)
         = Some (Corruption ''QPL status 500'', out1, w1)
     \<and> deflate_job_cache w1 0 qpl_path_auto = Some \<lparr>job = blank_job, initialized = False\<rparr>
     \<and> \<not> every_cached_job_initialized w1
     \<and> Compress (copy_double 0 500 (\<lambda>n. 0)) default_options 0 abc [] w1 = Some (OK, out2, w2)
     \<and> calls w2 = calls w1 @ [Call_qpl_execute_job]
     \<and> (\<exists>k b. 1 \<le> k \<and> calls w2 = calls w1 @ replicate k Call_qpl_execute_job
            \<and> deflate_job_cache w2 0 qpl_path_auto = Some b \<and> \<not> initialized b)
     \<and> Uncompress (copy_double 0 500 (\<lambda>n. 0)) default_options 0 default_info framed_abc 4
           garbage 77 (initial_world 0)
         = Some (Corruption ''QPL status 500'', Ptr 4096 [0, 0, 0], 77, v1)
     \<and> inflate_job_cache v1 0 qpl_path_auto = Some \<lparr>job = blank_job, initialized = False\<rparr>
     \<and> \<not> every_cached_job_initialized v1
     \<and> Uncompress (copy_double 0 500 (\<lambda>n. 0)) default_options 0 default_info framed_abc 4
           garbage 77 v1 = Some (OK, p2, len2, v2)
     \<and> calls v2 = calls v1 @ [Call_Allocate 3, Call_qpl_execute_job]
     \<and> (\<exists>b. inflate_job_cache v2 0 qpl_path_auto = Some b \<and> \<not> initialized b)"
proof -
  let ?D = "copy_double 0 500 (\<lambda>n. 0)"
  have p: "execution_path default_options = qpl_path_auto"
    by (simp add: default_options_def)
  have before: "every_cached_job_initialized (initial_world (0 :: nat))"
    by (simp add: every_cached_job_initialized_def initial_world_def)
  have none: "deflate_job_cache (initial_world (0 :: nat)) 0 (execution_path default_options) = None"
    "inflate_job_cache (initial_world (0 :: nat)) 0 (execution_path default_options) = None"
    by (simp_all add: initial_world_def)
  have sizing: "qpl_get_job_size ?D (env (initial_world (0 :: nat)))
      (execution_path default_options) = ((QPL_STS_OK ?D, 4096), 0)"
    by (simp add: copy_double_def initial_world_def)
  have usizing: "qpl_get_job_size ?D (0 :: nat)
      (execution_path default_options) = ((QPL_STS_OK ?D, 4096), 0)"
    by (simp add: copy_double_def)
  have unique: "make_unique ?D (0 :: nat) 4096 = (True, 0)"
    by (simp add: copy_double_def)
  have init: "qpl_init_job ?D (0 :: nat) (execution_path default_options)
      = ((500, blank_job), 0)"
    by (simp add: copy_double_def)
  have failed: "(500 :: qpl_status) \<noteq> QPL_STS_OK ?D"
    by simp
  note c8 = C8_init_failure_keeps_entry [OF none(1) sizing unique init failed
      DecodeSize_framed_abc buffer_for_abc none(2) usizing unique init failed,
      where input = abc and out = "[]" and uout = garbage and uout_length = 77,
      unfolded QPL_STATUS_500 p]
  \<comment> \<open>compression\<close>
  from c8 [THEN conjunct1] obtain out1 w1 where
    run1: "Compress ?D default_options 0 abc [] (initial_world 0)
             = Some (Corruption ''QPL status 500'', out1, w1)"
    and entry1: "deflate_job_cache w1 0 qpl_path_auto
             = Some \<lparr>job = blank_job, initialized = False\<rparr>"
    and inv1: "\<not> every_cached_job_initialized w1"
    and get1: "get_deflate_job ?D 0 qpl_path_auto w1 = (Inr blank_job, w1)"
    and next1: "\<forall>options2 input2 out2 st2 out2' w2.
                  execution_path options2 = qpl_path_auto
                  \<and> Compress ?D options2 0 input2 out2 w1 = Some (st2, out2', w2) \<longrightarrow>
                  (\<exists>k b. 1 \<le> k \<and> calls w2 = calls w1 @ replicate k Call_qpl_execute_job
                     \<and> deflate_job_cache w2 0 qpl_path_auto = Some b
                     \<and> \<not> initialized b)"
    by blast
  note second = Compress_executed [OF abc_prepare get1 [folded p]
      copy_double_init_failed_executes]
  obtain out2 w2 where run2: "Compress ?D default_options 0 abc [] w1 = Some (OK, out2, w2)"
    and calls2: "calls w2 = calls w1 @ [Call_qpl_execute_job]"
    unfolding second by simp
  have again: "\<exists>k b. 1 \<le> k \<and> calls w2 = calls w1 @ replicate k Call_qpl_execute_job
            \<and> deflate_job_cache w2 0 qpl_path_auto = Some b \<and> \<not> initialized b"
    using next1 [rule_format, of default_options abc "[]" OK out2 w2] p run2 by simp
  \<comment> \<open>decompression\<close>
  from c8 [THEN conjunct2] obtain v1 where
    urun1: "Uncompress ?D default_options 0 default_info framed_abc 4 garbage 77
              (initial_world 0)
            = Some (Corruption ''QPL status 500'', Ptr 4096 [0, 0, 0], 77, v1)"
    and uentry1: "inflate_job_cache v1 0 qpl_path_auto
             = Some \<lparr>job = blank_job, initialized = False\<rparr>"
    and uinv1: "\<not> every_cached_job_initialized v1"
    and uget1: "\<forall>e cs. get_inflate_job ?D 0 qpl_path_auto (v1\<lparr>env := e, calls := cs\<rparr>)
                         = (Inr blank_job, v1\<lparr>env := e, calls := cs\<rparr>)"
    and unext1: "\<forall>options2 info2 input2 len2 out2 outlen2 st2 out2' len2' w2.
                  execution_path options2 = qpl_path_auto
                  \<and> Uncompress ?D options2 0 info2 input2 len2 out2 outlen2 v1
                      = Some (st2, out2', len2', w2) \<longrightarrow>
                  (\<exists>cs b. calls w2 = calls v1 @ cs
                     \<and> (\<forall>p. Call_qpl_get_job_size p \<notin> set cs)
                     \<and> (\<forall>sz. Call_make_unique sz \<notin> set cs)
                     \<and> (\<forall>p. Call_qpl_init_job p \<notin> set cs)
                     \<and> (st2 = OK \<longrightarrow> Call_qpl_execute_job \<in> set cs)
                     \<and> inflate_job_cache w2 0 qpl_path_auto = Some b
                     \<and> \<not> initialized b)"
    by blast
  have ubuf: "Allocate (env v1) (ucast (3 :: u32)) (GetMemoryAllocator default_info)
                = (Returns (Ptr 4096 [0, 0, 0]), env v1)"
    using buffer_for_abc
    by (simp add: Allocate_def default_info_def BufferMemoryAllocator_def)
  note usecond = Uncompress_executed [OF DecodeSize_framed_abc ubuf
      uget1 [rule_format, folded p] copy_double_init_failed_executes, of garbage 77]
  obtain p2 len2 v2 where urun2: "Uncompress ?D default_options 0 default_info framed_abc 4
        garbage 77 v1 = Some (OK, p2, len2, v2)"
    and ucalls2: "calls v2 = calls v1 @ [Call_Allocate 3, Call_qpl_execute_job]"
    unfolding usecond by (simp add: Uncompress_set_job_def)
  have uagain: "\<exists>b. inflate_job_cache v2 0 qpl_path_auto = Some b \<and> \<not> initialized b"
    using unext1 [rule_format, of default_options default_info framed_abc 4 garbage 77
        OK p2 len2 v2] p urun2 by auto
  show ?thesis
    by (intro exI [of _ out1] exI [of _ w1] exI [of _ out2] exI [of _ w2]
          exI [of _ v1] exI [of _ p2] exI [of _ len2] exI [of _ v2] conjI
          before run1 entry1 inv1 run2 calls2 again urun1 uentry1 uinv1 urun2 ucalls2 uagain)
qed

end
